theory Spec2Isabelle
  imports Complex_Main
begin

section \<open>Voice recorder: session handlers, waveform buffer and progress cursor\<close>

text \<open>
  A shallow embedding of \<^verbatim>\<open>src/App.tsx\<close>. The file holds two variants of the
  application: the modal variant (the \<^verbatim>\<open>RecordingWaveform\<close> and
  \<^verbatim>\<open>PlaybackModal\<close> components and an \<^verbatim>\<open>AppContent\<close> with a playback modal) and
  the inline-list variant (an \<^verbatim>\<open>AppContent\<close> whose list items carry the playback
  buttons). Definitions of the inline-list variant that differ from the modal one carry
  the suffix \<open>_inline\<close>.

  Modelling decisions:
  \<^item> The \<^verbatim>\<open>useState\<close> variables of a component are the fields of a record.
  \<^item> Every handler is \<^verbatim>\<open>async\<close> and awaits one engine call inside \<^verbatim>\<open>try\<close>. The
    engine is external, so the outcome of the call is an argument of the handler:
    \<open>ok = True\<close> when the promise resolves, \<open>False\<close> when it rejects and the
    \<^verbatim>\<open>catch\<close> block runs. The handler functions give a handler run from its call
    to its end, for that outcome.
  \<^item> In the application a handler does not run in one piece: the press issues the call,
    and the state updates after the \<^verbatim>\<open>await\<close> run when the call settles, on the
    state of that moment. The transition systems below keep the calls in flight and let
    any other event happen before a call settles.
  \<^item> A handler returns the new state together with the list of effects it had on the
    outside world, in order: engine calls, \<^verbatim>\<open>console.error\<close> lines and directory
    reads.
  \<^item> Numbers of the waveform are modelled as reals; only their position in the buffer
    matters below.
  \<^item> A button can be pressed when the JSX renders it. Whether the open modal keeps
    touches from the buttons beneath it is left to the platform and is not modelled; no
    example below presses a button of the main screen while the modal is open.
\<close>

subsection \<open>Data\<close>

record Recording =
  name :: string
  path :: string

text \<open>An entry of \<^verbatim>\<open>RNFS.readDir\<close>: the fields the code reads.\<close>

record ReadDirItem = Recording +
  mtime :: int

datatype engine_call =
    StartRecorder string
  | PauseRecorder
  | ResumeRecorder
  | StopRecorder
  | StartPlayer string
  | PausePlayer
  | ResumePlayer
  | StopPlayer
  | AddPlayBackListener

datatype effect =
    Call engine_call
  | ConsoleError string
  | ReadDir

text \<open>The state variables that both variants of \<^verbatim>\<open>AppContent\<close> declare.\<close>

record AppCore =
  isRecording :: bool
  isPlaying :: bool
  isPaused :: bool
  recordings :: "Recording list"

text \<open>The modal variant adds the modal's visibility and the selected recording.\<close>

record AppContent = AppCore +
  showPlaybackModal :: bool
  selectedRecording :: "Recording option"

text \<open>The inline-list variant adds the path of the recording being played.\<close>

record AppContent_inline = AppCore +
  currentRecordingPath :: "string option"

definition initialApp :: AppContent where
  "initialApp =
     \<lparr>isRecording = False, isPlaying = False, isPaused = False, recordings = [],
      showPlaybackModal = False, selectedRecording = None\<rparr>"

definition initialApp_inline :: AppContent_inline where
  "initialApp_inline =
     \<lparr>isRecording = False, isPlaying = False, isPaused = False, recordings = [],
      currentRecordingPath = None\<rparr>"

subsection \<open>Loading the catalog\<close>

definition endsWith :: "string \<Rightarrow> string \<Rightarrow> bool" where
  "endsWith s suf =
     (length suf \<le> length s \<and> drop (length s - length suf) s = suf)"

definition isAudioFile :: "ReadDirItem \<Rightarrow> bool" where
  "isAudioFile item = (endsWith (name item) ''.m4a'' \<or> endsWith (name item) ''.mp4'')"

definition formatRecording :: "ReadDirItem \<Rightarrow> Recording" where
  "formatRecording file = \<lparr>name = name file, path = path file\<rparr>"

text \<open>
  \<^verbatim>\<open>loadRecordings\<close>: the directory read either fails (\<open>None\<close>, logged) or returns
  its entries. The modal variant sorts the audio files newest first (a stable sort on
  the comparator \<^verbatim>\<open>b.mtime - a.mtime\<close>); the inline-list variant keeps the directory
  order.
\<close>

definition loadRecordings ::
  "ReadDirItem list option \<Rightarrow> 'a AppCore_scheme \<Rightarrow> 'a AppCore_scheme \<times> effect list" where
  "loadRecordings result s =
     (case result of
        None \<Rightarrow> (s, [ReadDir, ConsoleError ''Failed to load recordings:''])
      | Some items \<Rightarrow>
          (let audioFiles = sort_key (\<lambda>f. - mtime f) (filter isAudioFile items);
               formattedRecordings = map formatRecording audioFiles
           in (s\<lparr>recordings := formattedRecordings\<rparr>, [ReadDir])))"

definition loadRecordings_inline ::
  "ReadDirItem list option \<Rightarrow> 'a AppCore_scheme \<Rightarrow> 'a AppCore_scheme \<times> effect list" where
  "loadRecordings_inline result s =
     (case result of
        None \<Rightarrow> (s, [ReadDir, ConsoleError ''Failed to load recordings:''])
      | Some items \<Rightarrow>
          (let audioFiles = filter isAudioFile items;
               formattedRecordings = map formatRecording audioFiles
           in (s\<lparr>recordings := formattedRecordings\<rparr>, [ReadDir])))"

subsection \<open>Recorder handlers (the same text in both variants)\<close>

text \<open>
  \<^verbatim>\<open>audioPath\<close> is \<^verbatim>\<open>Platform.select(...)\<close>: a path on iOS and Android,
  \<^verbatim>\<open>undefined\<close> elsewhere. \<^verbatim>\<open>if (!audioPath) return\<close> leaves on \<^verbatim>\<open>undefined\<close>
  and on the empty string.
\<close>

definition startRecording ::
  "string option \<Rightarrow> bool \<Rightarrow> 'a AppCore_scheme \<Rightarrow> 'a AppCore_scheme \<times> effect list" where
  "startRecording audioPath ok s =
     (case audioPath of
        None \<Rightarrow> (s, [])
      | Some p \<Rightarrow>
          if p = [] then (s, [])
          else if ok then
            (s\<lparr>isRecording := True, isPaused := False\<rparr>, [Call (StartRecorder p)])
          else (s, [Call (StartRecorder p), ConsoleError ''startRecording failed'']))"

definition pauseRecording ::
  "bool \<Rightarrow> 'a AppCore_scheme \<Rightarrow> 'a AppCore_scheme \<times> effect list" where
  "pauseRecording ok s =
     (if ok then (s\<lparr>isPaused := True\<rparr>, [Call PauseRecorder])
      else (s, [Call PauseRecorder, ConsoleError ''pauseRecording failed'']))"

definition resumeRecording ::
  "bool \<Rightarrow> 'a AppCore_scheme \<Rightarrow> 'a AppCore_scheme \<times> effect list" where
  "resumeRecording ok s =
     (if ok then (s\<lparr>isPaused := False\<rparr>, [Call ResumeRecorder])
      else (s, [Call ResumeRecorder, ConsoleError ''resumeRecording failed'']))"

definition stopRecording ::
  "bool \<Rightarrow> ReadDirItem list option \<Rightarrow> 'a AppCore_scheme \<Rightarrow> 'a AppCore_scheme \<times> effect list" where
  "stopRecording ok result s =
     (if ok then
        (let (s', out) = loadRecordings result (s\<lparr>isRecording := False, isPaused := False\<rparr>)
         in (s', Call StopRecorder # out))
      else (s, [Call StopRecorder, ConsoleError ''stopRecording failed'']))"

definition stopRecording_inline ::
  "bool \<Rightarrow> ReadDirItem list option \<Rightarrow> 'a AppCore_scheme \<Rightarrow> 'a AppCore_scheme \<times> effect list" where
  "stopRecording_inline ok result s =
     (if ok then
        (let (s', out) =
           loadRecordings_inline result (s\<lparr>isRecording := False, isPaused := False\<rparr>)
         in (s', Call StopRecorder # out))
      else (s, [Call StopRecorder, ConsoleError ''stopRecording failed'']))"

subsection \<open>Player handlers\<close>

definition pausePlayback ::
  "bool \<Rightarrow> 'a AppCore_scheme \<Rightarrow> 'a AppCore_scheme \<times> effect list" where
  "pausePlayback ok s =
     (if ok then (s\<lparr>isPaused := True\<rparr>, [Call PausePlayer])
      else (s, [Call PausePlayer, ConsoleError ''pausePlayback failed'']))"

definition resumePlayback ::
  "bool \<Rightarrow> 'a AppCore_scheme \<Rightarrow> 'a AppCore_scheme \<times> effect list" where
  "resumePlayback ok s =
     (if ok then (s\<lparr>isPaused := False\<rparr>, [Call ResumePlayer])
      else (s, [Call ResumePlayer, ConsoleError ''resumePlayback failed'']))"

text \<open>Modal variant.\<close>

definition startPlayback :: "string \<Rightarrow> bool \<Rightarrow> AppContent \<Rightarrow> AppContent \<times> effect list" where
  "startPlayback p ok s =
     (if ok then
        (s\<lparr>isPlaying := True, isPaused := False\<rparr>,
         [Call (StartPlayer p), Call AddPlayBackListener])
      else (s, [Call (StartPlayer p), ConsoleError ''startPlayback failed'']))"

text \<open>The callback that \<^verbatim>\<open>startPlayback\<close> hands to \<^verbatim>\<open>Sound.addPlayBackListener\<close>.\<close>

definition playBackListener :: "bool \<Rightarrow> AppContent \<Rightarrow> AppContent" where
  "playBackListener isFinished s =
     (if isFinished then
        s\<lparr>isPlaying := False, isPaused := False, showPlaybackModal := False\<rparr>
      else s)"

definition stopPlayback :: "bool \<Rightarrow> AppContent \<Rightarrow> AppContent \<times> effect list" where
  "stopPlayback ok s =
     (if ok then
        (s\<lparr>isPlaying := False, isPaused := False, showPlaybackModal := False\<rparr>,
         [Call StopPlayer])
      else (s, [Call StopPlayer, ConsoleError ''stopPlayback failed'']))"

definition handlePlayRecording ::
  "Recording \<Rightarrow> bool \<Rightarrow> AppContent \<Rightarrow> AppContent \<times> effect list" where
  "handlePlayRecording recording ok s =
     startPlayback (path recording) ok
       (s\<lparr>selectedRecording := Some recording, showPlaybackModal := True\<rparr>)"

definition handleCloseModal :: "bool \<Rightarrow> AppContent \<Rightarrow> AppContent \<times> effect list" where
  "handleCloseModal ok s =
     (if isPlaying s then stopPlayback ok s
      else (s\<lparr>showPlaybackModal := False, selectedRecording := None\<rparr>, []))"

text \<open>The \<^verbatim>\<open>onPlay\<close> property that \<^verbatim>\<open>AppContent\<close> passes to the modal.\<close>

definition onPlay :: "bool \<Rightarrow> AppContent \<Rightarrow> AppContent \<times> effect list" where
  "onPlay ok s =
     (case selectedRecording s of
        None \<Rightarrow> (s, [])
      | Some r \<Rightarrow> startPlayback (path r) ok s)"

text \<open>The \<^verbatim>\<open>onPress\<close> of the modal's play/pause control.\<close>

definition controlButtonPress :: "bool \<Rightarrow> AppContent \<Rightarrow> AppContent \<times> effect list" where
  "controlButtonPress ok s =
     (if isPlaying s then
        (if isPaused s then resumePlayback ok s else pausePlayback ok s)
      else onPlay ok s)"

text \<open>Inline-list variant.\<close>

definition startPlayback_inline ::
  "string \<Rightarrow> bool \<Rightarrow> AppContent_inline \<Rightarrow> AppContent_inline \<times> effect list" where
  "startPlayback_inline p ok s =
     (if ok then
        (s\<lparr>isPlaying := True, currentRecordingPath := Some p\<rparr>,
         [Call (StartPlayer p), Call AddPlayBackListener])
      else (s, [Call (StartPlayer p), ConsoleError ''startPlayback failed'']))"

definition playBackListener_inline :: "bool \<Rightarrow> AppContent_inline \<Rightarrow> AppContent_inline" where
  "playBackListener_inline isFinished s =
     (if isFinished then s\<lparr>isPlaying := False, currentRecordingPath := None\<rparr> else s)"

definition stopPlayback_inline ::
  "bool \<Rightarrow> AppContent_inline \<Rightarrow> AppContent_inline \<times> effect list" where
  "stopPlayback_inline ok s =
     (if ok then
        (s\<lparr>isPlaying := False, isPaused := False, currentRecordingPath := None\<rparr>,
         [Call StopPlayer])
      else (s, [Call StopPlayer, ConsoleError ''stopPlayback failed'']))"

text \<open>The \<^verbatim>\<open>onPress\<close> of a list item's Play/Pause button.\<close>

definition itemButtonPress ::
  "Recording \<Rightarrow> bool \<Rightarrow> AppContent_inline \<Rightarrow> AppContent_inline \<times> effect list" where
  "itemButtonPress item ok s =
     (if currentRecordingPath s = Some (path item) \<and> isPlaying s then
        (if isPaused s then resumePlayback ok s else pausePlayback ok s)
      else startPlayback_inline (path item) ok s)"

subsection \<open>Interval timers of a component\<close>

text \<open>
  Both components keep the handle of their interval in \<^verbatim>\<open>animationRef\<close>. The
  JavaScript runtime is modelled by \<open>live\<close>, the handles of the intervals that were
  scheduled and not cleared (only a live interval fires), and \<open>nextId\<close>, the handle
  the next \<^verbatim>\<open>setInterval\<close> returns (handles are positive numbers).
\<close>

record Animated =
  animationRef :: "nat option"
  live :: "nat list"
  nextId :: nat

definition clearInterval :: "nat \<Rightarrow> 'a Animated_scheme \<Rightarrow> 'a Animated_scheme" where
  "clearInterval i c = c\<lparr>live := removeAll i (live c)\<rparr>"

text \<open>\<^verbatim>\<open>animationRef.current = setInterval(callback, 100)\<close>\<close>

definition scheduleAnimation :: "'a Animated_scheme \<Rightarrow> 'a Animated_scheme" where
  "scheduleAnimation c =
     c\<lparr>animationRef := Some (nextId c), live := live c @ [nextId c], nextId := Suc (nextId c)\<rparr>"

text \<open>
  \<^verbatim>\<open>if (animationRef.current) clearInterval(animationRef.current)\<close>: the \<^verbatim>\<open>else\<close>
  branch of both effects and their cleanup function.
\<close>

definition clearAnimation :: "'a Animated_scheme \<Rightarrow> 'a Animated_scheme" where
  "clearAnimation c =
     (case animationRef c of
        None \<Rightarrow> c
      | Some i \<Rightarrow> if i = 0 then c else clearInterval i c)"

subsection \<open>RecordingWaveform\<close>

record RecordingWaveform = Animated +
  waveData :: "real list"

definition mountWaveform :: RecordingWaveform where
  "mountWaveform = \<lparr>animationRef = None, live = [], nextId = 1, waveData = []\<rparr>"

text \<open>\<^verbatim>\<open>xs.slice(-n)\<close> for a positive \<open>n\<close>: the last \<open>n\<close> elements, all of a shorter list.\<close>

definition sliceLast :: "nat \<Rightarrow> 'a list \<Rightarrow> 'a list" where
  "sliceLast n xs = (if length xs \<le> n then xs else drop (length xs - n) xs)"

text \<open>
  The updater \<^verbatim>\<open>prev => { const newData = [...prev, v]; return newData.slice(-50); }\<close>
  for a sample \<open>v\<close>.
\<close>

definition pushSample :: "'a \<Rightarrow> 'a list \<Rightarrow> 'a list" where
  "pushSample v prev = (let newData = prev @ [v] in sliceLast 50 newData)"

text \<open>
  One firing of the interval's callback; \<open>rnd\<close> is the value \<^verbatim>\<open>Math.random()\<close>
  returns.
\<close>

definition waveformTick :: "real \<Rightarrow> RecordingWaveform \<Rightarrow> RecordingWaveform" where
  "waveformTick rnd c = c\<lparr>waveData := pushSample (rnd * 100 + 10) (waveData c)\<rparr>"

text \<open>The body of the effect with dependencies \<^verbatim>\<open>[isRecording, isPaused]\<close>.\<close>

definition waveformEffect :: "bool \<Rightarrow> bool \<Rightarrow> RecordingWaveform \<Rightarrow> RecordingWaveform" where
  "waveformEffect isRec isPau c =
     (let c1 = (if isRec \<and> \<not> isPau then scheduleAnimation c else clearAnimation c)
      in if \<not> isRec then c1\<lparr>waveData := []\<rparr> else c1)"

subsection \<open>PlaybackModal\<close>

record PlaybackModal = Animated +
  playbackWaveData :: "real list"
  currentPosition :: nat

text \<open>
  The state at mount; \<open>rnd i\<close> is the value \<^verbatim>\<open>Math.random()\<close> returns for the bar
  \<open>i\<close> of the static waveform.
\<close>

definition mountModal :: "(nat \<Rightarrow> real) \<Rightarrow> PlaybackModal" where
  "mountModal rnd =
     \<lparr>animationRef = None, live = [], nextId = 1,
      playbackWaveData = map (\<lambda>i. rnd i * 60 + 10) [0..<100], currentPosition = 0\<rparr>"

text \<open>
  One firing of the interval's callback: the updater of \<^verbatim>\<open>setCurrentPosition\<close>. The
  second component says whether the updater called \<^verbatim>\<open>onStop()\<close>.
\<close>

definition positionTick :: "PlaybackModal \<Rightarrow> PlaybackModal \<times> bool" where
  "positionTick m =
     (let newPos = currentPosition m + 1
      in if newPos \<ge> length (playbackWaveData m) then (m\<lparr>currentPosition := 0\<rparr>, True)
         else (m\<lparr>currentPosition := newPos\<rparr>, False))"

text \<open>The body of the effect that schedules the interval.\<close>

definition modalEffect :: "bool \<Rightarrow> bool \<Rightarrow> bool \<Rightarrow> PlaybackModal \<Rightarrow> PlaybackModal" where
  "modalEffect isPlay isPau visible m =
     (if isPlay \<and> \<not> isPau \<and> visible then scheduleAnimation m else clearAnimation m)"

subsection \<open>Calls in flight\<close>

text \<open>
  An engine call that was issued and has not settled yet, named by the call its handler
  awaits. \<^verbatim>\<open>startPlayback\<close> keeps its argument for the code after the \<^verbatim>\<open>await\<close>.
\<close>

datatype awaited =
    AwaitStartRecorder
  | AwaitPauseRecorder
  | AwaitResumeRecorder
  | AwaitStopRecorder
  | AwaitStartPlayer string
  | AwaitPausePlayer
  | AwaitResumePlayer
  | AwaitStopPlayer

text \<open>
  What a handler does once its call settled: the statements after the \<^verbatim>\<open>await\<close> when
  the promise resolved (\<open>ok\<close>), the \<^verbatim>\<open>catch\<close> block when it rejected. The setters
  write constants, so they apply to the state at that moment. \<^verbatim>\<open>stopRecording\<close> goes on
  to \<^verbatim>\<open>loadRecordings\<close>, which starts a directory read.
\<close>

fun settle :: "awaited \<Rightarrow> bool \<Rightarrow> AppContent \<Rightarrow> AppContent \<times> effect list" where
  "settle AwaitStartRecorder ok a =
     (if ok then (a\<lparr>isRecording := True, isPaused := False\<rparr>, [])
      else (a, [ConsoleError ''startRecording failed'']))"
| "settle AwaitPauseRecorder ok a =
     (if ok then (a\<lparr>isPaused := True\<rparr>, [])
      else (a, [ConsoleError ''pauseRecording failed'']))"
| "settle AwaitResumeRecorder ok a =
     (if ok then (a\<lparr>isPaused := False\<rparr>, [])
      else (a, [ConsoleError ''resumeRecording failed'']))"
| "settle AwaitStopRecorder ok a =
     (if ok then (a\<lparr>isRecording := False, isPaused := False\<rparr>, [ReadDir])
      else (a, [ConsoleError ''stopRecording failed'']))"
| "settle (AwaitStartPlayer p) ok a =
     (if ok then (a\<lparr>isPlaying := True, isPaused := False\<rparr>, [Call AddPlayBackListener])
      else (a, [ConsoleError ''startPlayback failed'']))"
| "settle AwaitPausePlayer ok a =
     (if ok then (a\<lparr>isPaused := True\<rparr>, [])
      else (a, [ConsoleError ''pausePlayback failed'']))"
| "settle AwaitResumePlayer ok a =
     (if ok then (a\<lparr>isPaused := False\<rparr>, [])
      else (a, [ConsoleError ''resumePlayback failed'']))"
| "settle AwaitStopPlayer ok a =
     (if ok then
        (a\<lparr>isPlaying := False, isPaused := False, showPlaybackModal := False\<rparr>, [])
      else (a, [ConsoleError ''stopPlayback failed'']))"

fun settle_inline ::
  "awaited \<Rightarrow> bool \<Rightarrow> AppContent_inline \<Rightarrow> AppContent_inline \<times> effect list" where
  "settle_inline AwaitStartRecorder ok a =
     (if ok then (a\<lparr>isRecording := True, isPaused := False\<rparr>, [])
      else (a, [ConsoleError ''startRecording failed'']))"
| "settle_inline AwaitPauseRecorder ok a =
     (if ok then (a\<lparr>isPaused := True\<rparr>, [])
      else (a, [ConsoleError ''pauseRecording failed'']))"
| "settle_inline AwaitResumeRecorder ok a =
     (if ok then (a\<lparr>isPaused := False\<rparr>, [])
      else (a, [ConsoleError ''resumeRecording failed'']))"
| "settle_inline AwaitStopRecorder ok a =
     (if ok then (a\<lparr>isRecording := False, isPaused := False\<rparr>, [ReadDir])
      else (a, [ConsoleError ''stopRecording failed'']))"
| "settle_inline (AwaitStartPlayer p) ok a =
     (if ok then
        (a\<lparr>isPlaying := True, currentRecordingPath := Some p\<rparr>, [Call AddPlayBackListener])
      else (a, [ConsoleError ''startPlayback failed'']))"
| "settle_inline AwaitPausePlayer ok a =
     (if ok then (a\<lparr>isPaused := True\<rparr>, [])
      else (a, [ConsoleError ''pausePlayback failed'']))"
| "settle_inline AwaitResumePlayer ok a =
     (if ok then (a\<lparr>isPaused := False\<rparr>, [])
      else (a, [ConsoleError ''resumePlayback failed'']))"
| "settle_inline AwaitStopPlayer ok a =
     (if ok then
        (a\<lparr>isPlaying := False, isPaused := False, currentRecordingPath := None\<rparr>, [])
      else (a, [ConsoleError ''stopPlayback failed'']))"

text \<open>
  What \<^verbatim>\<open>loadRecordings\<close> does once its directory read settled (\<open>None\<close>: the read
  failed), in the modal and in the inline-list variant.
\<close>

definition readDirSettled ::
  "ReadDirItem list option \<Rightarrow> 'a AppCore_scheme \<Rightarrow> 'a AppCore_scheme \<times> effect list" where
  "readDirSettled result s =
     (case result of
        None \<Rightarrow> (s, [ConsoleError ''Failed to load recordings:''])
      | Some items \<Rightarrow>
          (let audioFiles = sort_key (\<lambda>f. - mtime f) (filter isAudioFile items);
               formattedRecordings = map formatRecording audioFiles
           in (s\<lparr>recordings := formattedRecordings\<rparr>, [])))"

definition readDirSettled_inline ::
  "ReadDirItem list option \<Rightarrow> 'a AppCore_scheme \<Rightarrow> 'a AppCore_scheme \<times> effect list" where
  "readDirSettled_inline result s =
     (case result of
        None \<Rightarrow> (s, [ConsoleError ''Failed to load recordings:''])
      | Some items \<Rightarrow>
          (let audioFiles = filter isAudioFile items;
               formattedRecordings = map formatRecording audioFiles
           in (s\<lparr>recordings := formattedRecordings\<rparr>, [])))"

subsection \<open>The modal variant as a transition system\<close>

text \<open>
  The application: the state of \<^verbatim>\<open>AppContent\<close>, the \<^verbatim>\<open>RecordingWaveform\<close>
  (mounted only while \<^verbatim>\<open>isRecording\<close>, by \<^verbatim>\<open>{isRecording && ...}\<close>), the
  \<^verbatim>\<open>PlaybackModal\<close> (always mounted), the number of playback listeners handed to
  the engine (the code never removes one), the engine calls in flight and the number of
  directory reads in flight.
\<close>

record System =
  app :: AppContent
  waveform :: "RecordingWaveform option"
  modal :: PlaybackModal
  listeners :: nat
  pending :: "awaited list"
  reading :: nat

text \<open>
  Rendering after the state of \<^verbatim>\<open>AppContent\<close> went from \<open>a\<close> to \<open>a'\<close>. React runs
  an effect again (cleanup first) when one of its dependencies changed. The waveform is
  mounted (its effect runs on the fresh state) or unmounted (its cleanup runs and its
  state is dropped) with \<^verbatim>\<open>isRecording\<close>.
\<close>

definition renderWaveform ::
  "AppContent \<Rightarrow> AppContent \<Rightarrow> RecordingWaveform option \<Rightarrow> RecordingWaveform option" where
  "renderWaveform a a' w =
     (case w of
        None \<Rightarrow>
          if isRecording a' then Some (waveformEffect (isRecording a') (isPaused a') mountWaveform)
          else None
      | Some c \<Rightarrow>
          if \<not> isRecording a' then None
          else if (isRecording a', isPaused a') \<noteq> (isRecording a, isPaused a) then
            Some (waveformEffect (isRecording a') (isPaused a') (clearAnimation c))
          else Some c)"

text \<open>
  The dependencies of the modal's first effect include \<^verbatim>\<open>onStop\<close>, which is
  \<^verbatim>\<open>stopPlayback\<close>, a new function at every render of \<^verbatim>\<open>AppContent\<close>: the effect
  runs again whenever \<^verbatim>\<open>AppContent\<close> rendered, that is whenever its state changed.
  The second effect, on \<^verbatim>\<open>[visible]\<close>, resets the position when the modal is hidden.
\<close>

definition renderModal :: "AppContent \<Rightarrow> AppContent \<Rightarrow> PlaybackModal \<Rightarrow> PlaybackModal" where
  "renderModal a a' m =
     (let m1 = (if a' \<noteq> a then
                  modalEffect (isPlaying a') (isPaused a') (showPlaybackModal a') (clearAnimation m)
                else m)
      in if showPlaybackModal a' \<noteq> showPlaybackModal a \<and> \<not> showPlaybackModal a' then
           m1\<lparr>currentPosition := 0\<rparr>
         else m1)"

definition commit :: "AppContent \<Rightarrow> System \<Rightarrow> System" where
  "commit a' s =
     s\<lparr>app := a',
       waveform := renderWaveform (app s) a' (waveform s),
       modal := renderModal (app s) a' (modal s)\<rparr>"

text \<open>
  State updates and their effects: the new state is rendered, a listener handed over
  and a directory read started are counted.
\<close>

definition deliver :: "AppContent \<times> effect list \<Rightarrow> System \<Rightarrow> System \<times> effect list" where
  "deliver r s =
     ((commit (fst r) s)
        \<lparr>listeners := listeners s + count_list (snd r) (Call AddPlayBackListener),
         reading := reading s + count_list (snd r) ReadDir\<rparr>,
      snd r)"

text \<open>A handler issues the engine call \<open>c\<close> and awaits it.\<close>

definition call :: "engine_call \<Rightarrow> awaited \<Rightarrow> System \<Rightarrow> System \<times> effect list" where
  "call c w s = (s\<lparr>pending := pending s @ [w]\<rparr>, [Call c])"

text \<open>
  What can happen: a press of a button, a firing of an interval, a notification of the
  engine to the playback listeners, the settling of a call in flight (\<open>Settled k ok\<close>:
  the call at position \<open>k\<close> resolves or rejects; calls may settle in any order) and the
  settling of a directory read.
\<close>

datatype event =
    StartRecordingPress "string option"
  | PauseRecordingPress
  | ResumeRecordingPress
  | StopRecordingPress
  | PlayPress Recording
  | ModalClosePress
  | ModalControlPress
  | ModalStopPress
  | WaveformInterval nat real
  | PositionInterval nat
  | PlayBackInfo bool
  | Settled nat bool
  | ReadDirSettled "ReadDirItem list option"

text \<open>
  A button can be pressed when the JSX renders it; an interval fires when it is live;
  the engine notifies when it holds a listener; a call or a read settles when it is in
  flight.
\<close>

fun enabled :: "System \<Rightarrow> event \<Rightarrow> bool" where
  "enabled s (StartRecordingPress ap) = (\<not> isRecording (app s))"
| "enabled s PauseRecordingPress = (isRecording (app s) \<and> \<not> isPaused (app s))"
| "enabled s ResumeRecordingPress = (isRecording (app s) \<and> isPaused (app s))"
| "enabled s StopRecordingPress = isRecording (app s)"
| "enabled s (PlayPress item) = (item \<in> set (recordings (app s)))"
| "enabled s ModalClosePress = showPlaybackModal (app s)"
| "enabled s ModalControlPress = showPlaybackModal (app s)"
| "enabled s ModalStopPress = (showPlaybackModal (app s) \<and> isPlaying (app s))"
| "enabled s (WaveformInterval i rnd) =
     (case waveform s of None \<Rightarrow> False | Some c \<Rightarrow> i \<in> set (live c))"
| "enabled s (PositionInterval i) = (i \<in> set (live (modal s)))"
| "enabled s (PlayBackInfo isFinished) = (0 < listeners s)"
| "enabled s (Settled k ok) = (k < length (pending s))"
| "enabled s (ReadDirSettled result) = (0 < reading s)"

text \<open>
  One event. A press runs its handler up to the \<^verbatim>\<open>await\<close>: \<^verbatim>\<open>startRecording\<close>
  returns without a call when \<^verbatim>\<open>audioPath\<close> is missing, \<^verbatim>\<open>handlePlayRecording\<close>
  selects the recording and opens the modal before \<^verbatim>\<open>startPlayback\<close> issues its call,
  \<^verbatim>\<open>handleCloseModal\<close> and the modal's control read \<^verbatim>\<open>isPlaying\<close>,
  \<^verbatim>\<open>isPaused\<close> and \<^verbatim>\<open>selectedRecording\<close> at the press. The tick that reaches the
  end calls \<^verbatim>\<open>onStop\<close>, that is \<^verbatim>\<open>stopPlayback\<close>.
\<close>

fun step :: "event \<Rightarrow> System \<Rightarrow> System \<times> effect list" where
  "step (StartRecordingPress ap) s =
     (case ap of
        None \<Rightarrow> (s, [])
      | Some p \<Rightarrow> if p = [] then (s, []) else call (StartRecorder p) AwaitStartRecorder s)"
| "step PauseRecordingPress s = call PauseRecorder AwaitPauseRecorder s"
| "step ResumeRecordingPress s = call ResumeRecorder AwaitResumeRecorder s"
| "step StopRecordingPress s = call StopRecorder AwaitStopRecorder s"
| "step (PlayPress item) s =
     call (StartPlayer (path item)) (AwaitStartPlayer (path item))
       (fst (deliver ((app s)\<lparr>selectedRecording := Some item, showPlaybackModal := True\<rparr>, []) s))"
| "step ModalClosePress s =
     (if isPlaying (app s) then call StopPlayer AwaitStopPlayer s
      else deliver ((app s)\<lparr>showPlaybackModal := False, selectedRecording := None\<rparr>, []) s)"
| "step ModalControlPress s =
     (if isPlaying (app s) then
        (if isPaused (app s) then call ResumePlayer AwaitResumePlayer s
         else call PausePlayer AwaitPausePlayer s)
      else
        (case selectedRecording (app s) of
           None \<Rightarrow> (s, [])
         | Some r \<Rightarrow> call (StartPlayer (path r)) (AwaitStartPlayer (path r)) s))"
| "step ModalStopPress s = call StopPlayer AwaitStopPlayer s"
| "step (WaveformInterval i rnd) s =
     (s\<lparr>waveform := map_option (waveformTick rnd) (waveform s)\<rparr>, [])"
| "step (PositionInterval i) s =
     (let (m', stop) = positionTick (modal s);
          s1 = s\<lparr>modal := m'\<rparr>
      in if stop then call StopPlayer AwaitStopPlayer s1 else (s1, []))"
| "step (PlayBackInfo isFinished) s =
     deliver (((playBackListener isFinished) ^^ (listeners s)) (app s), []) s"
| "step (Settled k ok) s =
     deliver (settle (pending s ! k) ok (app s))
       (s\<lparr>pending := take k (pending s) @ drop (Suc k) (pending s)\<rparr>)"
| "step (ReadDirSettled result) s =
     deliver (readDirSettled result (app s)) (s\<lparr>reading := reading s - 1\<rparr>)"

text \<open>A sequence of events runs while each is enabled; the effects are collected.\<close>

fun run :: "event list \<Rightarrow> System \<Rightarrow> (System \<times> effect list) option" where
  "run [] s = Some (s, [])"
| "run (e # es) s =
     (if enabled s e then
        (case run es (fst (step e s)) of
           None \<Rightarrow> None
         | Some (s', out) \<Rightarrow> Some (s', snd (step e s) @ out))
      else None)"

text \<open>
  The application after its first render: the mount effect has called
  \<^verbatim>\<open>loadRecordings\<close>, whose directory read is in flight.
\<close>

definition startup :: "(nat \<Rightarrow> real) \<Rightarrow> System" where
  "startup rnd =
     \<lparr>app = initialApp, waveform = None, modal = mountModal rnd, listeners = 0,
      pending = [], reading = 1\<rparr>"

subsection \<open>The inline-list variant as a transition system\<close>

record System_inline =
  app_inline :: AppContent_inline
  listeners_inline :: nat
  pending_inline :: "awaited list"
  reading_inline :: nat

definition deliver_inline ::
  "AppContent_inline \<times> effect list \<Rightarrow> System_inline \<Rightarrow> System_inline \<times> effect list" where
  "deliver_inline r s =
     (s\<lparr>app_inline := fst r,
        listeners_inline := listeners_inline s + count_list (snd r) (Call AddPlayBackListener),
        reading_inline := reading_inline s + count_list (snd r) ReadDir\<rparr>,
      snd r)"

definition call_inline ::
  "engine_call \<Rightarrow> awaited \<Rightarrow> System_inline \<Rightarrow> System_inline \<times> effect list" where
  "call_inline c w s = (s\<lparr>pending_inline := pending_inline s @ [w]\<rparr>, [Call c])"

datatype event_inline =
    StartRecordingPress_inline "string option"
  | PauseRecordingPress_inline
  | ResumeRecordingPress_inline
  | StopRecordingPress_inline
  | ItemButtonPress Recording
  | ItemStopPress Recording
  | PlayBackInfo_inline bool
  | Settled_inline nat bool
  | ReadDirSettled_inline "ReadDirItem list option"

fun enabled_inline :: "System_inline \<Rightarrow> event_inline \<Rightarrow> bool" where
  "enabled_inline s (StartRecordingPress_inline ap) = (\<not> isRecording (app_inline s))"
| "enabled_inline s PauseRecordingPress_inline =
     (isRecording (app_inline s) \<and> \<not> isPaused (app_inline s))"
| "enabled_inline s ResumeRecordingPress_inline =
     (isRecording (app_inline s) \<and> isPaused (app_inline s))"
| "enabled_inline s StopRecordingPress_inline = isRecording (app_inline s)"
| "enabled_inline s (ItemButtonPress item) = (item \<in> set (recordings (app_inline s)))"
| "enabled_inline s (ItemStopPress item) =
     (item \<in> set (recordings (app_inline s)) \<and>
      currentRecordingPath (app_inline s) = Some (path item) \<and> isPlaying (app_inline s))"
| "enabled_inline s (PlayBackInfo_inline isFinished) = (0 < listeners_inline s)"
| "enabled_inline s (Settled_inline k ok) = (k < length (pending_inline s))"
| "enabled_inline s (ReadDirSettled_inline result) = (0 < reading_inline s)"

fun step_inline :: "event_inline \<Rightarrow> System_inline \<Rightarrow> System_inline \<times> effect list" where
  "step_inline (StartRecordingPress_inline ap) s =
     (case ap of
        None \<Rightarrow> (s, [])
      | Some p \<Rightarrow>
          if p = [] then (s, []) else call_inline (StartRecorder p) AwaitStartRecorder s)"
| "step_inline PauseRecordingPress_inline s = call_inline PauseRecorder AwaitPauseRecorder s"
| "step_inline ResumeRecordingPress_inline s =
     call_inline ResumeRecorder AwaitResumeRecorder s"
| "step_inline StopRecordingPress_inline s = call_inline StopRecorder AwaitStopRecorder s"
| "step_inline (ItemButtonPress item) s =
     (if currentRecordingPath (app_inline s) = Some (path item) \<and> isPlaying (app_inline s) then
        (if isPaused (app_inline s) then call_inline ResumePlayer AwaitResumePlayer s
         else call_inline PausePlayer AwaitPausePlayer s)
      else call_inline (StartPlayer (path item)) (AwaitStartPlayer (path item)) s)"
| "step_inline (ItemStopPress item) s = call_inline StopPlayer AwaitStopPlayer s"
| "step_inline (PlayBackInfo_inline isFinished) s =
     deliver_inline
       (((playBackListener_inline isFinished) ^^ (listeners_inline s)) (app_inline s), []) s"
| "step_inline (Settled_inline k ok) s =
     deliver_inline (settle_inline (pending_inline s ! k) ok (app_inline s))
       (s\<lparr>pending_inline := take k (pending_inline s) @ drop (Suc k) (pending_inline s)\<rparr>)"
| "step_inline (ReadDirSettled_inline result) s =
     deliver_inline (readDirSettled_inline result (app_inline s))
       (s\<lparr>reading_inline := reading_inline s - 1\<rparr>)"

fun run_inline :: "event_inline list \<Rightarrow> System_inline \<Rightarrow> (System_inline \<times> effect list) option" where
  "run_inline [] s = Some (s, [])"
| "run_inline (e # es) s =
     (if enabled_inline s e then
        (case run_inline es (fst (step_inline e s)) of
           None \<Rightarrow> None
         | Some (s', out) \<Rightarrow> Some (s', snd (step_inline e s) @ out))
      else None)"

definition startup_inline :: System_inline where
  "startup_inline =
     \<lparr>app_inline = initialApp_inline, listeners_inline = 0, pending_inline = [],
      reading_inline = 1\<rparr>"

subsection \<open>Consistency of a state\<close>

text \<open>
  A component owns its timer when the handle in \<^verbatim>\<open>animationRef\<close> is the only one
  that can be live. A state of the application is well formed when the waveform is
  mounted exactly while recording and holds at most 50 samples, each component's interval
  is live exactly when its effect asks for one, the static waveform has its 100 bars,
  the position is inside it and is 0 while the modal is hidden, and a playing
  application has handed a listener to the engine. Every state the application reaches
  is well formed (\<open>run_wellFormed\<close> below).
\<close>

definition owned :: "'a Animated_scheme \<Rightarrow> bool" where
  "owned c =
     (0 < nextId c \<and>
      (case animationRef c of
         None \<Rightarrow> live c = []
       | Some i \<Rightarrow> 0 < i \<and> i < nextId c \<and> (live c = [] \<or> live c = [i])))"

definition waveformOk :: "AppContent \<Rightarrow> RecordingWaveform option \<Rightarrow> bool" where
  "waveformOk a w =
     (case w of
        None \<Rightarrow> \<not> isRecording a
      | Some c \<Rightarrow>
          isRecording a \<and> owned c \<and> (live c = []) = isPaused a \<and> length (waveData c) \<le> 50)"

definition modalOk :: "AppContent \<Rightarrow> PlaybackModal \<Rightarrow> bool" where
  "modalOk a m =
     (owned m \<and>
      (live m = []) = (\<not> (isPlaying a \<and> \<not> isPaused a \<and> showPlaybackModal a)) \<and>
      length (playbackWaveData m) = 100 \<and> currentPosition m < 100 \<and>
      (\<not> showPlaybackModal a \<longrightarrow> currentPosition m = 0))"

definition wellFormed :: "System \<Rightarrow> bool" where
  "wellFormed s =
     (waveformOk (app s) (waveform s) \<and> modalOk (app s) (modal s) \<and>
      (isPlaying (app s) \<longrightarrow> 0 < listeners s))"

subsection \<open>Requests that respect the exclusion of the two sessions\<close>

text \<open>
  A session of one kind is active or being started when its flag is set or its start
  call is in flight. A request is exclusive when it does not start a session while a
  session of the other kind is active or being started: no Start Recording then, no
  start of playback (the list's Play button, or the modal's control when nothing plays)
  then.
\<close>

definition recorderBusy :: "System \<Rightarrow> bool" where
  "recorderBusy s = (isRecording (app s) \<or> AwaitStartRecorder \<in> set (pending s))"

fun isStartPlayer :: "awaited \<Rightarrow> bool" where
  "isStartPlayer (AwaitStartPlayer p) = True"
| "isStartPlayer w = False"

definition playerBusy :: "System \<Rightarrow> bool" where
  "playerBusy s = (isPlaying (app s) \<or> list_ex isStartPlayer (pending s))"

definition exclusiveRequest :: "System \<Rightarrow> event \<Rightarrow> bool" where
  "exclusiveRequest s e =
     (case e of
        StartRecordingPress ap \<Rightarrow> \<not> playerBusy s
      | PlayPress item \<Rightarrow> \<not> recorderBusy s
      | ModalControlPress \<Rightarrow> isPlaying (app s) \<or> \<not> recorderBusy s
      | _ \<Rightarrow> True)"

fun exclusiveRequests :: "event list \<Rightarrow> System \<Rightarrow> bool" where
  "exclusiveRequests [] s = True"
| "exclusiveRequests (e # es) s =
     (exclusiveRequest s e \<and> exclusiveRequests es (fst (step e s)))"

subsection \<open>Concrete inputs\<close>

text \<open>
  A directory with two audio files and one other file, the two recordings the catalog
  shows for it, and the application once the catalog is loaded (in both variants).
\<close>

definition recA :: Recording where
  "recA = \<lparr>name = ''a.m4a'', path = ''/docs/a.m4a''\<rparr>"

definition recB :: Recording where
  "recB = \<lparr>name = ''b.mp4'', path = ''/docs/b.mp4''\<rparr>"

definition exampleDir :: "ReadDirItem list" where
  "exampleDir =
     [\<lparr>name = ''a.m4a'', path = ''/docs/a.m4a'', mtime = 1\<rparr>,
      \<lparr>name = ''b.mp4'', path = ''/docs/b.mp4'', mtime = 2\<rparr>,
      \<lparr>name = ''notes.txt'', path = ''/docs/notes.txt'', mtime = 3\<rparr>]"

definition exampleStart :: System where
  "exampleStart = fst (step (ReadDirSettled (Some exampleDir)) (startup (\<lambda>i. 0)))"

definition exampleStart_inline :: System_inline where
  "exampleStart_inline =
     fst (step_inline (ReadDirSettled_inline (Some exampleDir)) startup_inline)"

text \<open>
  States of the modal variant, each reached with every call accepted before the next
  event: playing the first recording; recording; the cursor on the last bar; recording
  and playing at once; a paused recording; a paused playback; after the engine
  reported the finish.
\<close>

definition examplePlaying :: System where
  "examplePlaying = fst (step (Settled 0 True) (fst (step (PlayPress recA) exampleStart)))"

definition exampleRecording :: System where
  "exampleRecording =
     fst (step (Settled 0 True)
            (fst (step (StartRecordingPress (Some ''/docs/new.m4a'')) exampleStart)))"

definition exampleLastBar :: System where
  "exampleLastBar = examplePlaying\<lparr>modal := (modal examplePlaying)\<lparr>currentPosition := 99\<rparr>\<rparr>"

definition exampleBoth :: System where
  "exampleBoth = fst (step (Settled 0 True) (fst (step (PlayPress recA) exampleRecording)))"

definition examplePausedRecording :: System where
  "examplePausedRecording =
     fst (step (Settled 0 True) (fst (step PauseRecordingPress exampleRecording)))"

definition examplePausedPlaying :: System where
  "examplePausedPlaying =
     fst (step (Settled 0 True) (fst (step ModalControlPress examplePlaying)))"


text \<open>The inline-list variant playing the first recording.\<close>

definition examplePlaying_inline :: System_inline where
  "examplePlaying_inline =
     fst (step_inline (Settled_inline 0 True)
            (fst (step_inline (ItemButtonPress recA) exampleStart_inline)))"

section \<open>Properties\<close>

subsection \<open>Every reachable state is well formed\<close>

lemma owned_clearAnimation:
  "owned c \<Longrightarrow> owned (clearAnimation c) \<and> live (clearAnimation c) = []"
  by (auto simp: owned_def clearAnimation_def clearInterval_def split: option.splits)

lemma owned_scheduleAnimation:
  "owned c \<Longrightarrow> live c = [] \<Longrightarrow>
   owned (scheduleAnimation c) \<and> live (scheduleAnimation c) = [nextId c]"
  by (auto simp: owned_def scheduleAnimation_def split: option.splits)

lemma owned_mountWaveform: "owned mountWaveform \<and> live mountWaveform = []"
  by (simp add: owned_def mountWaveform_def)

lemma waveformEffect_owned:
  "owned c \<Longrightarrow> live c = [] \<Longrightarrow>
   owned (waveformEffect r p c) \<and> (live (waveformEffect r p c) = []) = (\<not> (r \<and> \<not> p))"
  using owned_clearAnimation[of c] owned_scheduleAnimation[of c]
  by (auto simp: waveformEffect_def Let_def owned_def split: option.splits)

lemma waveformEffect_waveData:
  "length (waveData (waveformEffect r p c)) \<le> length (waveData c)"
  by (simp add: waveformEffect_def Let_def scheduleAnimation_def clearAnimation_def
      clearInterval_def split: option.splits)

lemma clearAnimation_waveData: "waveData (clearAnimation c) = waveData c"
  by (simp add: clearAnimation_def clearInterval_def split: option.splits)

lemma renderWaveform_ok:
  assumes "waveformOk a w"
  shows "waveformOk a' (renderWaveform a a' w)"
proof (cases w)
  case None
  then show ?thesis
    using waveformEffect_owned[of mountWaveform True "isPaused a'"] owned_mountWaveform
      waveformEffect_waveData[of True "isPaused a'" mountWaveform]
    by (simp add: waveformOk_def renderWaveform_def mountWaveform_def)
next
  case (Some c)
  with assms have c: "isRecording a" "owned c" "(live c = []) = isPaused a"
    and len: "length (waveData c) \<le> 50"
    by (simp_all add: waveformOk_def)
  have cl: "owned (clearAnimation c)" "live (clearAnimation c) = []"
    using owned_clearAnimation[OF c(2)] by simp_all
  have "length (waveData (waveformEffect True (isPaused a') (clearAnimation c))) \<le> 50"
    using waveformEffect_waveData[of True "isPaused a'" "clearAnimation c"] len
    by (simp add: clearAnimation_waveData)
  then show ?thesis
    using Some c len waveformEffect_owned[OF cl, of True "isPaused a'"]
    by (auto simp: waveformOk_def renderWaveform_def)
qed

lemma modalEffect_owned:
  "owned m \<Longrightarrow> live m = [] \<Longrightarrow>
   owned (modalEffect pl pa v m) \<and> (live (modalEffect pl pa v m) = []) = (\<not> (pl \<and> \<not> pa \<and> v))"
  using owned_clearAnimation[of m] owned_scheduleAnimation[of m]
  by (auto simp: modalEffect_def)

lemma modalEffect_frame:
  "playbackWaveData (modalEffect pl pa v m) = playbackWaveData m \<and>
   currentPosition (modalEffect pl pa v m) = currentPosition m"
  by (simp add: modalEffect_def scheduleAnimation_def clearAnimation_def clearInterval_def
      split: option.splits)

lemma clearAnimation_frame:
  "playbackWaveData (clearAnimation m) = playbackWaveData m \<and>
   currentPosition (clearAnimation m) = currentPosition m"
  by (simp add: clearAnimation_def clearInterval_def split: option.splits)

lemma owned_position: "owned (m\<lparr>currentPosition := n\<rparr>) = owned m"
  by (simp add: owned_def split: option.splits)

lemma renderModal_ok:
  assumes "modalOk a m"
  shows "modalOk a' (renderModal a a' m)"
proof -
  from assms have m: "owned m" "length (playbackWaveData m) = 100" "currentPosition m < 100"
    "\<not> showPlaybackModal a \<longrightarrow> currentPosition m = 0"
    and lv: "(live m = []) = (\<not> (isPlaying a \<and> \<not> isPaused a \<and> showPlaybackModal a))"
    by (simp_all add: modalOk_def)
  have cl: "owned (clearAnimation m)" "live (clearAnimation m) = []"
    using owned_clearAnimation[OF m(1)] by simp_all
  note eff = modalEffect_owned[OF cl, of "isPlaying a'" "isPaused a'" "showPlaybackModal a'"]
  show ?thesis
  proof (cases "a' = a")
    case True
    with assms show ?thesis by (simp add: renderModal_def)
  next
    case False
    then show ?thesis
      using eff m
      by (auto simp: modalOk_def renderModal_def Let_def owned_position modalEffect_frame
          clearAnimation_frame)
  qed
qed

lemma wellFormed_pending [simp]: "wellFormed (s\<lparr>pending := ps\<rparr>) = wellFormed s"
  by (simp add: wellFormed_def)

lemma wellFormed_reading [simp]: "wellFormed (s\<lparr>reading := n\<rparr>) = wellFormed s"
  by (simp add: wellFormed_def)

lemma app_deliver: "app (fst (deliver r s)) = fst r"
  by (simp add: deliver_def commit_def)

lemma snd_deliver: "snd (deliver r s) = snd r"
  by (simp add: deliver_def)

lemma pending_deliver: "pending (fst (deliver r s)) = pending s"
  by (simp add: deliver_def commit_def)

lemma listeners_deliver:
  "listeners (fst (deliver r s)) = listeners s + count_list (snd r) (Call AddPlayBackListener)"
  by (simp add: deliver_def commit_def)

lemma call_simps:
  "app (fst (call c w s)) = app s" "waveform (fst (call c w s)) = waveform s"
  "modal (fst (call c w s)) = modal s" "listeners (fst (call c w s)) = listeners s"
  "pending (fst (call c w s)) = pending s @ [w]" "snd (call c w s) = [Call c]"
  "wellFormed (fst (call c w s)) = wellFormed s"
  by (simp_all add: call_def)

lemma handler_wellFormed:
  assumes "wellFormed s"
    and "isPlaying (fst r) \<Longrightarrow>
           isPlaying (app s) \<or> 0 < count_list (snd r) (Call AddPlayBackListener)"
  shows "wellFormed (fst (deliver r s))"
proof -
  have "isPlaying (fst r) \<longrightarrow> 0 < listeners s + count_list (snd r) (Call AddPlayBackListener)"
    using assms by (auto simp: wellFormed_def)
  then show ?thesis
    using assms(1) renderWaveform_ok[of "app s" "waveform s" "fst r"]
      renderModal_ok[of "app s" "modal s" "fst r"]
    by (simp add: wellFormed_def deliver_def commit_def)
qed

lemma playBackListener_funpow:
  "((playBackListener isFinished) ^^ n) a =
     (if isFinished \<and> 0 < n then
        a\<lparr>isPlaying := False, isPaused := False, showPlaybackModal := False\<rparr>
      else a)"
  by (induction n) (auto simp: playBackListener_def)

lemma set_position_wellFormed:
  "wellFormed s \<Longrightarrow> n < 100 \<Longrightarrow> showPlaybackModal (app s) \<Longrightarrow>
   wellFormed (s\<lparr>modal := (modal s)\<lparr>currentPosition := n\<rparr>\<rparr>)"
  by (simp add: wellFormed_def modalOk_def owned_position)

lemma tick_visible:
  "wellFormed s \<Longrightarrow> i \<in> set (live (modal s)) \<Longrightarrow>
   isPlaying (app s) \<and> \<not> isPaused (app s) \<and> showPlaybackModal (app s)"
  by (auto simp: wellFormed_def modalOk_def)

lemma tick_step:
  assumes "wellFormed s"
  shows "step (PositionInterval i) s =
           (if Suc (currentPosition (modal s)) < 100 then
              (s\<lparr>modal := (modal s)\<lparr>currentPosition := Suc (currentPosition (modal s))\<rparr>\<rparr>, [])
            else
              call StopPlayer AwaitStopPlayer (s\<lparr>modal := (modal s)\<lparr>currentPosition := 0\<rparr>\<rparr>))"
proof -
  from assms have "length (playbackWaveData (modal s)) = 100"
    by (simp add: wellFormed_def modalOk_def)
  then show ?thesis by (simp add: positionTick_def Let_def)
qed

lemma length_pushSample: "length (pushSample v b) \<le> 50"
  by (simp add: pushSample_def sliceLast_def Let_def)

lemma waveformTick_wellFormed:
  assumes "wellFormed s"
  shows "wellFormed (s\<lparr>waveform := map_option (waveformTick rnd) (waveform s)\<rparr>)"
  using assms
  by (cases "waveform s")
     (auto simp: wellFormed_def waveformOk_def waveformTick_def owned_def length_pushSample
        split: option.splits)

lemma settle_playing:
  "isPlaying (fst (settle w ok a)) \<Longrightarrow>
   isPlaying a \<or> 0 < count_list (snd (settle w ok a)) (Call AddPlayBackListener)"
  by (cases w) (auto split: if_splits)

lemma step_wellFormed:
  assumes "wellFormed s" and en: "enabled s e"
  shows "wellFormed (fst (step e s))"
proof (cases e)
  case (StartRecordingPress ap)
  then show ?thesis using assms(1) by (simp add: call_simps split: option.splits)
next
  case PauseRecordingPress
  then show ?thesis using assms(1) by (simp add: call_simps)
next
  case ResumeRecordingPress
  then show ?thesis using assms(1) by (simp add: call_simps)
next
  case StopRecordingPress
  then show ?thesis using assms(1) by (simp add: call_simps)
next
  case (PlayPress item)
  have "wellFormed
          (fst (deliver ((app s)\<lparr>selectedRecording := Some item, showPlaybackModal := True\<rparr>, []) s))"
    by (rule handler_wellFormed[OF assms(1)]) simp
  with PlayPress show ?thesis by (simp add: call_simps)
next
  case ModalClosePress
  have "wellFormed
          (fst (deliver ((app s)\<lparr>showPlaybackModal := False, selectedRecording := None\<rparr>, []) s))"
    by (rule handler_wellFormed[OF assms(1)]) simp
  with ModalClosePress show ?thesis using assms(1) by (simp add: call_simps)
next
  case ModalControlPress
  then show ?thesis using assms(1) by (simp add: call_simps split: option.splits)
next
  case ModalStopPress
  then show ?thesis using assms(1) by (simp add: call_simps)
next
  case (WaveformInterval i rnd)
  then show ?thesis using waveformTick_wellFormed[OF assms(1)] by simp
next
  case (PositionInterval i)
  with en have i: "i \<in> set (live (modal s))" by simp
  note vis = tick_visible[OF assms(1) i]
  have p: "currentPosition (modal s) < 100"
    using assms(1) by (simp add: wellFormed_def modalOk_def)
  have "wellFormed (s\<lparr>modal := (modal s)\<lparr>currentPosition := n\<rparr>\<rparr>)" if "n < 100" for n
    using assms(1) that vis by (intro set_position_wellFormed) simp_all
  then show ?thesis
    unfolding PositionInterval tick_step[OF assms(1)] by (simp add: call_simps)
next
  case (PlayBackInfo isFinished)
  show ?thesis
    unfolding PlayBackInfo step.simps
    by (rule handler_wellFormed[OF assms(1)]) (auto simp: playBackListener_funpow split: if_splits)
next
  case (Settled k ok)
  let ?s1 = "s\<lparr>pending := take k (pending s) @ drop (Suc k) (pending s)\<rparr>"
  have "wellFormed ?s1" using assms(1) by simp
  then have "wellFormed (fst (deliver (settle (pending s ! k) ok (app s)) ?s1))"
    by (rule handler_wellFormed) (auto dest: settle_playing)
  with Settled show ?thesis by simp
next
  case (ReadDirSettled result)
  let ?s1 = "s\<lparr>reading := reading s - 1\<rparr>"
  have "wellFormed ?s1" using assms(1) by simp
  then have "wellFormed (fst (deliver (readDirSettled result (app s)) ?s1))"
    by (rule handler_wellFormed)
       (auto simp: readDirSettled_def Let_def split: option.splits)
  with ReadDirSettled show ?thesis by simp
qed

lemma run_wellFormed:
  "run es s = Some (s', out) \<Longrightarrow> wellFormed s \<Longrightarrow> wellFormed s'"
proof (induction es arbitrary: s out)
  case Nil
  then show ?case by simp
next
  case (Cons e es)
  then show ?case
    using step_wellFormed[of s e]
    by (auto split: if_splits option.splits)
qed

lemma startup_wellFormed: "wellFormed (startup rnd)"
  by (simp add: startup_def wellFormed_def waveformOk_def modalOk_def owned_def initialApp_def
      mountModal_def)

lemma reachable_wellFormed:
  "run es (startup rnd) = Some (s, out) \<Longrightarrow> wellFormed s"
  using run_wellFormed startup_wellFormed by blast

lemma commit_same: "waveformOk (app s) (waveform s) \<Longrightarrow> commit (app s) s = s"
  by (cases "waveform s") (auto simp: commit_def renderWaveform_def renderModal_def waveformOk_def)

lemma deliver_same:
  assumes "wellFormed s" and "Call AddPlayBackListener \<notin> set out" and "ReadDir \<notin> set out"
  shows "deliver (app s, out) s = (s, out)"
  using assms commit_same[of s] by (simp add: deliver_def wellFormed_def)

lemma deliver_plain:
  "Call AddPlayBackListener \<notin> set (snd r) \<Longrightarrow> ReadDir \<notin> set (snd r) \<Longrightarrow>
   deliver r s = (commit (fst r) s, snd r)"
  by (simp add: deliver_def commit_def)


text \<open>
  Removing the call at position \<open>k\<close> from the calls in flight; the call issued last is
  at the end.
\<close>

lemma settle_last:
  "take (length ps) (ps @ [w]) @ drop (Suc (length ps)) (ps @ [w]) = ps \<and>
   (ps @ [w]) ! length ps = w"
  by simp

subsection \<open>A handler and its two halves\<close>

text \<open>
  Each handler function is its call followed by what \<open>settle\<close> does for the call: the
  handler functions describe a press whose call settles before anything else happens.
\<close>

lemma recorder_handlers_settle:
  "p \<noteq> [] \<Longrightarrow>
   startRecording (Some p) ok a =
     (fst (settle AwaitStartRecorder ok a),
      Call (StartRecorder p) # snd (settle AwaitStartRecorder ok a))"
  "pauseRecording ok a =
     (fst (settle AwaitPauseRecorder ok a), Call PauseRecorder # snd (settle AwaitPauseRecorder ok a))"
  "resumeRecording ok a =
     (fst (settle AwaitResumeRecorder ok a),
      Call ResumeRecorder # snd (settle AwaitResumeRecorder ok a))"
  "stopRecording False result a =
     (fst (settle AwaitStopRecorder False a),
      Call StopRecorder # snd (settle AwaitStopRecorder False a))"
  "stopRecording True result a =
     (fst (readDirSettled result (fst (settle AwaitStopRecorder True a))),
      Call StopRecorder # snd (settle AwaitStopRecorder True a) @
        snd (readDirSettled result (fst (settle AwaitStopRecorder True a))))"
  by (simp_all add: startRecording_def pauseRecording_def resumeRecording_def stopRecording_def
      loadRecordings_def readDirSettled_def Let_def split: option.splits)

lemma player_handlers_settle:
  "startPlayback p ok a =
     (fst (settle (AwaitStartPlayer p) ok a),
      Call (StartPlayer p) # snd (settle (AwaitStartPlayer p) ok a))"
  "pausePlayback ok a =
     (fst (settle AwaitPausePlayer ok a), Call PausePlayer # snd (settle AwaitPausePlayer ok a))"
  "resumePlayback ok a =
     (fst (settle AwaitResumePlayer ok a), Call ResumePlayer # snd (settle AwaitResumePlayer ok a))"
  "stopPlayback ok a =
     (fst (settle AwaitStopPlayer ok a), Call StopPlayer # snd (settle AwaitStopPlayer ok a))"
  by (simp_all add: startPlayback_def pausePlayback_def resumePlayback_def stopPlayback_def)

lemma inline_handlers_settle:
  "p \<noteq> [] \<Longrightarrow>
   startRecording (Some p) ok n =
     (fst (settle_inline AwaitStartRecorder ok n),
      Call (StartRecorder p) # snd (settle_inline AwaitStartRecorder ok n))"
  "pauseRecording ok n =
     (fst (settle_inline AwaitPauseRecorder ok n),
      Call PauseRecorder # snd (settle_inline AwaitPauseRecorder ok n))"
  "resumeRecording ok n =
     (fst (settle_inline AwaitResumeRecorder ok n),
      Call ResumeRecorder # snd (settle_inline AwaitResumeRecorder ok n))"
  "stopRecording_inline False result n =
     (fst (settle_inline AwaitStopRecorder False n),
      Call StopRecorder # snd (settle_inline AwaitStopRecorder False n))"
  "stopRecording_inline True result n =
     (fst (readDirSettled_inline result (fst (settle_inline AwaitStopRecorder True n))),
      Call StopRecorder # snd (settle_inline AwaitStopRecorder True n) @
        snd (readDirSettled_inline result (fst (settle_inline AwaitStopRecorder True n))))"
  "startPlayback_inline p ok n =
     (fst (settle_inline (AwaitStartPlayer p) ok n),
      Call (StartPlayer p) # snd (settle_inline (AwaitStartPlayer p) ok n))"
  "pausePlayback ok n =
     (fst (settle_inline AwaitPausePlayer ok n),
      Call PausePlayer # snd (settle_inline AwaitPausePlayer ok n))"
  "resumePlayback ok n =
     (fst (settle_inline AwaitResumePlayer ok n),
      Call ResumePlayer # snd (settle_inline AwaitResumePlayer ok n))"
  "stopPlayback_inline ok n =
     (fst (settle_inline AwaitStopPlayer ok n),
      Call StopPlayer # snd (settle_inline AwaitStopPlayer ok n))"
  by (simp_all add: startRecording_def pauseRecording_def resumeRecording_def
      stopRecording_inline_def loadRecordings_inline_def readDirSettled_inline_def
      startPlayback_inline_def pausePlayback_def resumePlayback_def stopPlayback_inline_def
      Let_def split: option.splits)

lemma settle_rejected:
  "fst (settle w False a) = a \<and> Call AddPlayBackListener \<notin> set (snd (settle w False a)) \<and>
   ReadDir \<notin> set (snd (settle w False a))"
  by (cases w) simp_all

lemma rejected_step:
  assumes "wellFormed s"
  shows "step (Settled k False) s =
           (s\<lparr>pending := take k (pending s) @ drop (Suc k) (pending s)\<rparr>,
            snd (settle (pending s ! k) False (app s)))"
proof -
  let ?s1 = "s\<lparr>pending := take k (pending s) @ drop (Suc k) (pending s)\<rparr>"
  let ?r = "settle (pending s ! k) False (app s)"
  have wf1: "wellFormed ?s1" using assms by simp
  have "deliver (app ?s1, snd ?r) ?s1 = (?s1, snd ?r)"
    using settle_rejected[of "pending s ! k" "app s"] by (intro deliver_same[OF wf1]) simp_all
  moreover have "?r = (app ?s1, snd ?r)"
    using settle_rejected[of "pending s ! k" "app s"] by (simp add: prod_eq_iff)
  ultimately show ?thesis by simp
qed

lemma call_rejected:
  assumes "wellFormed s"
  shows "step (Settled (length (pending s)) False) (fst (call c w s)) =
           (s, snd (settle w False (app s)))"
proof -
  have wf1: "wellFormed (fst (call c w s))" using assms by (simp add: call_simps)
  show ?thesis
    unfolding rejected_step[OF wf1] by (simp add: call_def)
qed

subsection \<open>Start of playback and the shared paused flag\<close>

text \<open>
  C10. In the inline-list variant a successful \<^verbatim>\<open>startPlayback\<close> sets only the playing
  flag and the current recording path: the shared paused flag keeps its prior value, so
  from a state with \<open>isPaused\<close> set the new playback session begins with \<open>isPaused\<close>
  still set. The modal variant's \<^verbatim>\<open>startPlayback\<close> resets the flag to false.
\<close>

theorem startPlayback_inline_keeps_paused:
  "fst (startPlayback_inline p True s) = s\<lparr>isPlaying := True, currentRecordingPath := Some p\<rparr> \<and>
   isPaused (fst (startPlayback_inline p True s)) = isPaused s \<and>
   (isPaused s \<longrightarrow>
      isPaused (fst (startPlayback_inline p True s)) \<and>
      isPlaying (fst (startPlayback_inline p True s))) \<and>
   isPaused (fst (startPlayback p True a)) = False"
  by (simp add: startPlayback_inline_def startPlayback_def)

theorem startPlayback_inline_keeps_paused_witness:
  "isPaused (initialApp_inline\<lparr>isRecording := True, isPaused := True\<rparr>) \<and>
   isPaused (fst (startPlayback_inline ''/docs/a.m4a'' True
      (initialApp_inline\<lparr>isRecording := True, isPaused := True\<rparr>))) \<and>
   isPlaying (fst (startPlayback_inline ''/docs/a.m4a'' True
      (initialApp_inline\<lparr>isRecording := True, isPaused := True\<rparr>))) \<and>
   \<not> isPaused (fst (startPlayback ''/docs/a.m4a'' True
      (initialApp\<lparr>isRecording := True, isPaused := True\<rparr>)))"
  using startPlayback_inline_keeps_paused
    [of "''/docs/a.m4a''" "initialApp_inline\<lparr>isRecording := True, isPaused := True\<rparr>"
        "initialApp\<lparr>isRecording := True, isPaused := True\<rparr>"]
  by (simp add: initialApp_inline_def)

subsection \<open>Rejected engine calls\<close>

text \<open>
  C6. If the engine rejects a start call (\<^verbatim>\<open>startRecorder\<close> or \<^verbatim>\<open>startPlayer\<close>), the
  handler logs the error with \<^verbatim>\<open>console.error\<close> and returns the state it was given;
  the engine was called once (no retry). In the application, in every reachable state:
  the Start Recording button and the modal's play control issue the call and change
  nothing else, and the rejection of that call gives back the state before the press,
  waveform component included (none is mounted from an idle state); whatever happened
  since the press, the rejection of a start call in flight only logs the error and
  leaves the state as it is. The list's Play button opens the modal before
  \<^verbatim>\<open>startPlayback\<close> issues the call; the rejected call leaves the session flags, the
  waveform and the listeners as they were before the press.
\<close>

theorem rejected_start_changes_nothing:
  assumes "run es (startup rnd) = Some (s, out)" and "p \<noteq> []"
  shows "startRecording (Some p) False a =
           (a, [Call (StartRecorder p), ConsoleError ''startRecording failed'']) \<and>
         startPlayback p False m =
           (m, [Call (StartPlayer p), ConsoleError ''startPlayback failed'']) \<and>
         startPlayback_inline p False n =
           (n, [Call (StartPlayer p), ConsoleError ''startPlayback failed'']) \<and>
         step (StartRecordingPress (Some p)) s =
           (s\<lparr>pending := pending s @ [AwaitStartRecorder]\<rparr>, [Call (StartRecorder p)]) \<and>
         step (Settled (length (pending s)) False)
              (fst (step (StartRecordingPress (Some p)) s)) =
           (s, [ConsoleError ''startRecording failed'']) \<and>
         (selectedRecording (app s) = Some item \<and> \<not> isPlaying (app s) \<longrightarrow>
            step ModalControlPress s =
              (s\<lparr>pending := pending s @ [AwaitStartPlayer (path item)]\<rparr>,
               [Call (StartPlayer (path item))]) \<and>
            step (Settled (length (pending s)) False) (fst (step ModalControlPress s)) =
              (s, [ConsoleError ''startPlayback failed''])) \<and>
         isRecording (app (fst (step (Settled (length (pending s)) False)
                                  (fst (step (PlayPress item) s))))) = isRecording (app s) \<and>
         isPlaying (app (fst (step (Settled (length (pending s)) False)
                                (fst (step (PlayPress item) s))))) = isPlaying (app s) \<and>
         isPaused (app (fst (step (Settled (length (pending s)) False)
                               (fst (step (PlayPress item) s))))) = isPaused (app s) \<and>
         waveform (fst (step (Settled (length (pending s)) False)
                          (fst (step (PlayPress item) s)))) = waveform s \<and>
         listeners (fst (step (Settled (length (pending s)) False)
                           (fst (step (PlayPress item) s)))) = listeners s \<and>
         pending (fst (step (Settled (length (pending s)) False)
                         (fst (step (PlayPress item) s)))) = pending s \<and>
         snd (step (PlayPress item) s) @
           snd (step (Settled (length (pending s)) False) (fst (step (PlayPress item) s))) =
           [Call (StartPlayer (path item)), ConsoleError ''startPlayback failed''] \<and>
         (k < length (pending s) \<and> pending s ! k = AwaitStartRecorder \<longrightarrow>
            step (Settled k False) s =
              (s\<lparr>pending := take k (pending s) @ drop (Suc k) (pending s)\<rparr>,
               [ConsoleError ''startRecording failed''])) \<and>
         (k < length (pending s) \<and> pending s ! k = AwaitStartPlayer q \<longrightarrow>
            step (Settled k False) s =
              (s\<lparr>pending := take k (pending s) @ drop (Suc k) (pending s)\<rparr>,
               [ConsoleError ''startPlayback failed'']))"
proof -
  have wf: "wellFormed s" using assms(1) by (rule reachable_wellFormed)
  have 1: "startRecording (Some p) False a =
           (a, [Call (StartRecorder p), ConsoleError ''startRecording failed''])"
    using assms(2) by (simp add: startRecording_def)
  have 2: "startPlayback p False m =
           (m, [Call (StartPlayer p), ConsoleError ''startPlayback failed''])"
    by (simp add: startPlayback_def)
  have 3: "startPlayback_inline p False n =
           (n, [Call (StartPlayer p), ConsoleError ''startPlayback failed''])"
    by (simp add: startPlayback_inline_def)
  have 4: "step (StartRecordingPress (Some p)) s =
           (s\<lparr>pending := pending s @ [AwaitStartRecorder]\<rparr>, [Call (StartRecorder p)])"
    using assms(2) by (simp add: call_def)
  have 5: "step (Settled (length (pending s)) False)
              (fst (step (StartRecordingPress (Some p)) s)) =
           (s, [ConsoleError ''startRecording failed''])"
    using assms(2) call_rejected[OF wf, of "StartRecorder p" AwaitStartRecorder]
    by (simp del: step.simps(12))
  have 6: "step ModalControlPress s =
              (s\<lparr>pending := pending s @ [AwaitStartPlayer (path item)]\<rparr>,
               [Call (StartPlayer (path item))]) \<and>
            step (Settled (length (pending s)) False) (fst (step ModalControlPress s)) =
              (s, [ConsoleError ''startPlayback failed''])"
    if "selectedRecording (app s) = Some item \<and> \<not> isPlaying (app s)"
    using that call_rejected[OF wf, of "StartPlayer (path item)" "AwaitStartPlayer (path item)"]
    by (simp add: call_def del: step.simps(12))
  let ?a1 = "(app s)\<lparr>selectedRecording := Some item, showPlaybackModal := True\<rparr>"
  let ?s1 = "fst (deliver (?a1, []) s)"
  have wf1: "wellFormed ?s1" by (rule handler_wellFormed[OF wf]) simp
  have p1: "step (PlayPress item) s =
              call (StartPlayer (path item)) (AwaitStartPlayer (path item)) ?s1"
    by simp
  have l1: "length (pending s) = length (pending ?s1)" by (simp add: pending_deliver)
  have r1: "step (Settled (length (pending s)) False) (fst (step (PlayPress item) s)) =
              (?s1, [ConsoleError ''startPlayback failed''])"
    unfolding p1 l1 call_rejected[OF wf1] by simp
  have wo: "waveformOk (app s) (waveform s)" using wf by (simp add: wellFormed_def)
  have w1: "waveform ?s1 = waveform s"
    using wo
    by (cases "waveform s") (auto simp: deliver_def commit_def renderWaveform_def waveformOk_def)
  have 7: "isRecording (app (fst (step (Settled (length (pending s)) False)
                                  (fst (step (PlayPress item) s))))) = isRecording (app s) \<and>
         isPlaying (app (fst (step (Settled (length (pending s)) False)
                                (fst (step (PlayPress item) s))))) = isPlaying (app s) \<and>
         isPaused (app (fst (step (Settled (length (pending s)) False)
                               (fst (step (PlayPress item) s))))) = isPaused (app s) \<and>
         waveform (fst (step (Settled (length (pending s)) False)
                          (fst (step (PlayPress item) s)))) = waveform s \<and>
         listeners (fst (step (Settled (length (pending s)) False)
                           (fst (step (PlayPress item) s)))) = listeners s \<and>
         pending (fst (step (Settled (length (pending s)) False)
                         (fst (step (PlayPress item) s)))) = pending s \<and>
         snd (step (PlayPress item) s) @
           snd (step (Settled (length (pending s)) False) (fst (step (PlayPress item) s))) =
           [Call (StartPlayer (path item)), ConsoleError ''startPlayback failed'']"
    unfolding r1 using w1
    by (simp add: app_deliver listeners_deliver pending_deliver call_simps)
  have 8: "step (Settled k False) s =
              (s\<lparr>pending := take k (pending s) @ drop (Suc k) (pending s)\<rparr>,
               [ConsoleError ''startRecording failed''])"
    if "k < length (pending s) \<and> pending s ! k = AwaitStartRecorder"
    using that by (simp add: rejected_step[OF wf] del: step.simps(12))
  have 9: "step (Settled k False) s =
              (s\<lparr>pending := take k (pending s) @ drop (Suc k) (pending s)\<rparr>,
               [ConsoleError ''startPlayback failed''])"
    if "k < length (pending s) \<and> pending s ! k = AwaitStartPlayer q"
    using that by (simp add: rejected_step[OF wf] del: step.simps(12))
  from 1 2 3 4 5 6 7 8 9 show ?thesis by blast
qed

theorem rejected_start_changes_nothing_witness:
  "run [ReadDirSettled (Some exampleDir)] (startup (\<lambda>i. 0)) = Some (exampleStart, []) \<and>
   ''/docs/new.m4a'' \<noteq> [] \<and>
   startRecording (Some ''/docs/new.m4a'') False initialApp =
     (initialApp, [Call (StartRecorder ''/docs/new.m4a''), ConsoleError ''startRecording failed'']) \<and>
   step (StartRecordingPress (Some ''/docs/new.m4a'')) exampleStart =
     (exampleStart\<lparr>pending := pending exampleStart @ [AwaitStartRecorder]\<rparr>,
      [Call (StartRecorder ''/docs/new.m4a'')]) \<and>
   step (Settled (length (pending exampleStart)) False)
        (fst (step (StartRecordingPress (Some ''/docs/new.m4a'')) exampleStart)) =
     (exampleStart, [ConsoleError ''startRecording failed'']) \<and>
   waveform exampleStart = None \<and> \<not> isRecording (app exampleStart) \<and>
   \<not> isPlaying (app exampleStart) \<and>
   isPlaying (app (fst (step (Settled (length (pending exampleStart)) False)
                          (fst (step (PlayPress recA) exampleStart))))) =
     isPlaying (app exampleStart)"
proof -
  have r: "run [ReadDirSettled (Some exampleDir)] (startup (\<lambda>i. 0)) = Some (exampleStart, [])"
    by code_simp
  have p: "''/docs/new.m4a'' \<noteq> []" by simp
  have w: "waveform exampleStart = None" and i: "\<not> isRecording (app exampleStart)"
    and pl: "\<not> isPlaying (app exampleStart)"
    by code_simp+
  from rejected_start_changes_nothing[OF r p, where a = initialApp and item = recA] r p w i pl
  show ?thesis by blast
qed

text \<open>
  C7, as stated: if the engine rejects a stop call, the controller still forces its
  local state towards idle. It does not: after a rejected \<^verbatim>\<open>stopRecorder\<close> the
  application is still recording (the waveform stays mounted), after a rejected
  \<^verbatim>\<open>stopPlayer\<close> it is still playing with the modal open.
\<close>

theorem rejected_stop_keeps_session_counterexample:
  "run [StartRecordingPress (Some ''/docs/new.m4a''), Settled 0 True, StopRecordingPress,
        Settled 0 False] exampleStart =
     Some (exampleRecording,
           [Call (StartRecorder ''/docs/new.m4a''), Call StopRecorder,
            ConsoleError ''stopRecording failed'']) \<and>
   isRecording (app exampleRecording) \<and>
   waveform exampleRecording =
     Some \<lparr>animationRef = Some 1, live = [1], nextId = 2, waveData = []\<rparr> \<and>
   run [PlayPress recA, Settled 0 True, ModalStopPress, Settled 0 False] exampleStart =
     Some (examplePlaying,
           [Call (StartPlayer ''/docs/a.m4a''), Call AddPlayBackListener, Call StopPlayer,
            ConsoleError ''stopPlayback failed'']) \<and>
   isPlaying (app examplePlaying) \<and> showPlaybackModal (app examplePlaying)"
  by code_simp

text \<open>
  C7, amended: if the engine rejects a stop call (\<^verbatim>\<open>stopRecorder\<close> or
  \<^verbatim>\<open>stopPlayer\<close>), the handler logs the error and leaves the state as it was: the
  state updates stand after the awaited call inside \<^verbatim>\<open>try\<close>, as in every other
  handler. In every reachable state the Stop Recording button, the modal's stop button
  and, while playing, the modal's close button only issue the call, and the rejection
  of a stop call, at once or later, only logs the error: a recording or playing
  application stays so.
\<close>

theorem rejected_stop_keeps_session:
  assumes "run es (startup rnd) = Some (s, out)"
  shows "stopRecording False dir a =
           (a, [Call StopRecorder, ConsoleError ''stopRecording failed'']) \<and>
         stopRecording_inline False dir a =
           (a, [Call StopRecorder, ConsoleError ''stopRecording failed'']) \<and>
         stopPlayback False m = (m, [Call StopPlayer, ConsoleError ''stopPlayback failed'']) \<and>
         stopPlayback_inline False n =
           (n, [Call StopPlayer, ConsoleError ''stopPlayback failed'']) \<and>
         step StopRecordingPress s =
           (s\<lparr>pending := pending s @ [AwaitStopRecorder]\<rparr>, [Call StopRecorder]) \<and>
         step (Settled (length (pending s)) False) (fst (step StopRecordingPress s)) =
           (s, [ConsoleError ''stopRecording failed'']) \<and>
         step ModalStopPress s =
           (s\<lparr>pending := pending s @ [AwaitStopPlayer]\<rparr>, [Call StopPlayer]) \<and>
         step (Settled (length (pending s)) False) (fst (step ModalStopPress s)) =
           (s, [ConsoleError ''stopPlayback failed'']) \<and>
         (isPlaying (app s) \<longrightarrow>
            step ModalClosePress s =
              (s\<lparr>pending := pending s @ [AwaitStopPlayer]\<rparr>, [Call StopPlayer]) \<and>
            step (Settled (length (pending s)) False) (fst (step ModalClosePress s)) =
              (s, [ConsoleError ''stopPlayback failed''])) \<and>
         (k < length (pending s) \<and> pending s ! k = AwaitStopRecorder \<longrightarrow>
            step (Settled k False) s =
              (s\<lparr>pending := take k (pending s) @ drop (Suc k) (pending s)\<rparr>,
               [ConsoleError ''stopRecording failed''])) \<and>
         (k < length (pending s) \<and> pending s ! k = AwaitStopPlayer \<longrightarrow>
            step (Settled k False) s =
              (s\<lparr>pending := take k (pending s) @ drop (Suc k) (pending s)\<rparr>,
               [ConsoleError ''stopPlayback failed'']))"
proof -
  have wf: "wellFormed s" using assms(1) by (rule reachable_wellFormed)
  have h: "stopRecording False dir a =
           (a, [Call StopRecorder, ConsoleError ''stopRecording failed'']) \<and>
         stopRecording_inline False dir a =
           (a, [Call StopRecorder, ConsoleError ''stopRecording failed'']) \<and>
         stopPlayback False m = (m, [Call StopPlayer, ConsoleError ''stopPlayback failed'']) \<and>
         stopPlayback_inline False n =
           (n, [Call StopPlayer, ConsoleError ''stopPlayback failed''])"
    by (simp add: stopRecording_def stopRecording_inline_def stopPlayback_def
        stopPlayback_inline_def)
  have 1: "step StopRecordingPress s =
           (s\<lparr>pending := pending s @ [AwaitStopRecorder]\<rparr>, [Call StopRecorder]) \<and>
         step (Settled (length (pending s)) False) (fst (step StopRecordingPress s)) =
           (s, [ConsoleError ''stopRecording failed''])"
    using call_rejected[OF wf, of StopRecorder AwaitStopRecorder]
    by (simp add: call_def del: step.simps(12))
  have 2: "step ModalStopPress s =
           (s\<lparr>pending := pending s @ [AwaitStopPlayer]\<rparr>, [Call StopPlayer]) \<and>
         step (Settled (length (pending s)) False) (fst (step ModalStopPress s)) =
           (s, [ConsoleError ''stopPlayback failed''])"
    using call_rejected[OF wf, of StopPlayer AwaitStopPlayer]
    by (simp add: call_def del: step.simps(12))
  have 3: "step ModalClosePress s =
              (s\<lparr>pending := pending s @ [AwaitStopPlayer]\<rparr>, [Call StopPlayer]) \<and>
            step (Settled (length (pending s)) False) (fst (step ModalClosePress s)) =
              (s, [ConsoleError ''stopPlayback failed''])"
    if "isPlaying (app s)"
    using that call_rejected[OF wf, of StopPlayer AwaitStopPlayer]
    by (simp add: call_def del: step.simps(12))
  have 4: "step (Settled k False) s =
              (s\<lparr>pending := take k (pending s) @ drop (Suc k) (pending s)\<rparr>,
               [ConsoleError ''stopRecording failed''])"
    if "k < length (pending s) \<and> pending s ! k = AwaitStopRecorder"
    using that by (simp add: rejected_step[OF wf] del: step.simps(12))
  have 5: "step (Settled k False) s =
              (s\<lparr>pending := take k (pending s) @ drop (Suc k) (pending s)\<rparr>,
               [ConsoleError ''stopPlayback failed''])"
    if "k < length (pending s) \<and> pending s ! k = AwaitStopPlayer"
    using that by (simp add: rejected_step[OF wf] del: step.simps(12))
  from h 1 2 3 4 5 show ?thesis by blast
qed

theorem rejected_stop_keeps_session_witness:
  "run [ReadDirSettled (Some exampleDir), PlayPress recA, Settled 0 True] (startup (\<lambda>i. 0)) =
     Some (examplePlaying, [Call (StartPlayer ''/docs/a.m4a''), Call AddPlayBackListener]) \<and>
   isPlaying (app examplePlaying) \<and>
   step ModalClosePress examplePlaying =
     (examplePlaying\<lparr>pending := pending examplePlaying @ [AwaitStopPlayer]\<rparr>,
      [Call StopPlayer]) \<and>
   step (Settled (length (pending examplePlaying)) False)
        (fst (step ModalClosePress examplePlaying)) =
     (examplePlaying, [ConsoleError ''stopPlayback failed''])"
proof -
  have r: "run [ReadDirSettled (Some exampleDir), PlayPress recA, Settled 0 True]
             (startup (\<lambda>i. 0)) =
     Some (examplePlaying, [Call (StartPlayer ''/docs/a.m4a''), Call AddPlayBackListener])"
    by code_simp
  have pl: "isPlaying (app examplePlaying)" by code_simp
  from rejected_stop_keeps_session[OF r, where dir = None and a = initialApp
      and m = initialApp and n = initialApp_inline] r pl
  show ?thesis by blast
qed

subsection \<open>Starting playback while playing\<close>

text \<open>
  C9, as stated: starting the player while another recording is playing first stops the
  previous session, the engine's \<^verbatim>\<open>stopPlayer\<close> included. In the inline-list
  variant, pressing the button of the second recording while the first one plays calls
  \<^verbatim>\<open>startPlayer\<close> for the second and never \<^verbatim>\<open>stopPlayer\<close>.
\<close>

theorem start_while_playing_no_stop_counterexample:
  "run_inline [ItemButtonPress recA, Settled_inline 0 True] exampleStart_inline =
     Some (examplePlaying_inline,
           [Call (StartPlayer ''/docs/a.m4a''), Call AddPlayBackListener]) \<and>
   isPlaying (app_inline examplePlaying_inline) \<and>
   currentRecordingPath (app_inline examplePlaying_inline) = Some ''/docs/a.m4a'' \<and>
   run_inline [ItemButtonPress recA, Settled_inline 0 True, ItemButtonPress recB,
               Settled_inline 0 True] exampleStart_inline =
     Some (examplePlaying_inline
             \<lparr>app_inline := (app_inline examplePlaying_inline)
                \<lparr>currentRecordingPath := Some ''/docs/b.mp4''\<rparr>,
              listeners_inline := 2\<rparr>,
           [Call (StartPlayer ''/docs/a.m4a''), Call AddPlayBackListener,
            Call (StartPlayer ''/docs/b.mp4''), Call AddPlayBackListener]) \<and>
   snd (step_inline (ItemButtonPress recB) examplePlaying_inline) =
     [Call (StartPlayer ''/docs/b.mp4'')]"
  by code_simp

text \<open>
  C9, amended: starting the player while another recording is playing performs no
  implicit stop. The inline-list button of another recording runs \<^verbatim>\<open>startPlayback\<close>
  directly, and \<^verbatim>\<open>startPlayback\<close> (as \<^verbatim>\<open>handlePlayRecording\<close> in the modal variant)
  makes one engine call, \<^verbatim>\<open>startPlayer\<close> for the new path, followed on success by
  the registration of one more listener; on success the playing flag stays set and the
  target becomes the new recording.
\<close>

theorem start_while_playing_no_stop:
  "(isPlaying n \<and> currentRecordingPath n \<noteq> Some (path item) \<longrightarrow>
      itemButtonPress item ok n = startPlayback_inline (path item) ok n) \<and>
   snd (startPlayback_inline p ok n) =
     Call (StartPlayer p) #
       (if ok then [Call AddPlayBackListener] else [ConsoleError ''startPlayback failed'']) \<and>
   fst (startPlayback_inline p True n) = n\<lparr>isPlaying := True, currentRecordingPath := Some p\<rparr> \<and>
   snd (handlePlayRecording item ok a) =
     Call (StartPlayer (path item)) #
       (if ok then [Call AddPlayBackListener] else [ConsoleError ''startPlayback failed'']) \<and>
   fst (handlePlayRecording item True a) =
     a\<lparr>selectedRecording := Some item, showPlaybackModal := True, isPlaying := True,
       isPaused := False\<rparr>"
  by (simp add: itemButtonPress_def startPlayback_inline_def handlePlayRecording_def
      startPlayback_def)

theorem start_while_playing_no_stop_witness:
  "isPlaying (app_inline examplePlaying_inline) \<and>
   currentRecordingPath (app_inline examplePlaying_inline) \<noteq> Some (path recB) \<and>
   itemButtonPress recB True (app_inline examplePlaying_inline) =
     ((app_inline examplePlaying_inline)
        \<lparr>isPlaying := True, currentRecordingPath := Some (path recB)\<rparr>,
      [Call (StartPlayer (path recB)), Call AddPlayBackListener])"
proof -
  have 1: "isPlaying (app_inline examplePlaying_inline)" by code_simp
  have 2: "currentRecordingPath (app_inline examplePlaying_inline) \<noteq> Some (path recB)"
    by code_simp
  from start_while_playing_no_stop[where n = "app_inline examplePlaying_inline"
      and item = recB and ok = True and p = "path recB" and a = initialApp] 1 2
  show ?thesis by (simp add: prod_eq_iff)
qed

subsection \<open>The live waveform buffer\<close>

lemma sliceLast_again:
  assumes "0 < n"
  shows "sliceLast n (sliceLast n xs @ [v]) = sliceLast n (xs @ [v])"
proof (cases "length xs \<le> n")
  case True
  then show ?thesis by (simp add: sliceLast_def)
next
  case False
  then have "Suc (length xs) - n = Suc (length xs - n)" by simp
  with False assms show ?thesis by (simp add: sliceLast_def)
qed

lemma pushSamples_window:
  "vs \<noteq> [] \<Longrightarrow> foldl (\<lambda>b v. pushSample v b) buf vs = sliceLast 50 (buf @ vs)"
proof (induction vs rule: rev_induct)
  case Nil
  then show ?case by simp
next
  case (snoc v vs)
  show ?case
  proof (cases "vs = []")
    case True
    then show ?thesis by (simp add: pushSample_def)
  next
    case False
    with snoc.IH have "foldl (\<lambda>b v. pushSample v b) buf vs = sliceLast 50 (buf @ vs)" by simp
    then show ?thesis
      using sliceLast_again[of 50 "buf @ vs" v] by (simp add: pushSample_def)
  qed
qed

lemma waveformTicks_waveData:
  "waveData (foldl (\<lambda>c r. waveformTick r c) c rnds) =
     foldl (\<lambda>b v. pushSample v b) (waveData c) (map (\<lambda>r. r * 100 + 10) rnds)"
  by (induction rnds arbitrary: c) (simp_all add: waveformTick_def)

lemma length_sliceLast: "length (sliceLast n xs) = min n (length xs)"
  by (simp add: sliceLast_def)

text \<open>
  C2. From every state of the waveform component, \<open>50 + k\<close> ticks of its interval
  (\<open>k > 0\<close>) leave a buffer of exactly 50 samples: the last 50 pushed, in push order.
  After every tick the buffer holds at most 50 samples, as it does in every state the
  application reaches; a tick on a full buffer drops the oldest sample and appends the
  new one, a tick on a shorter buffer only appends.
\<close>

theorem waveform_sliding_window:
  assumes "length rnds = 50 + k" and "0 < k"
  shows "waveData (foldl (\<lambda>c r. waveformTick r c) c rnds) =
           drop k (map (\<lambda>r. r * 100 + 10) rnds) \<and>
         length (waveData (foldl (\<lambda>c r. waveformTick r c) c rnds)) = 50 \<and>
         (\<forall>n. 0 < n \<and> n \<le> length rnds \<longrightarrow>
            length (waveData (foldl (\<lambda>c r. waveformTick r c) c (take n rnds))) \<le> 50) \<and>
         (length (waveData c) = 50 \<longrightarrow>
            waveData (waveformTick r c) = tl (waveData c) @ [r * 100 + 10]) \<and>
         (length (waveData c) < 50 \<longrightarrow>
            waveData (waveformTick r c) = waveData c @ [r * 100 + 10]) \<and>
         (run es (startup rnd) = Some (s, out) \<longrightarrow>
            (case waveform s of None \<Rightarrow> True | Some w \<Rightarrow> length (waveData w) \<le> 50))"
proof -
  let ?vs = "map (\<lambda>r. r * 100 + 10) rnds"
  have ne: "?vs \<noteq> []" using assms by auto
  have w: "waveData (foldl (\<lambda>c r. waveformTick r c) c rnds) = sliceLast 50 (waveData c @ ?vs)"
    using pushSamples_window[OF ne] by (simp add: waveformTicks_waveData)
  have 1: "waveData (foldl (\<lambda>c r. waveformTick r c) c rnds) = drop k ?vs"
    using assms by (simp add: w sliceLast_def)
  have 2: "length (waveData (foldl (\<lambda>c r. waveformTick r c) c rnds)) = 50"
    using assms by (simp add: 1)
  have 3: "length (waveData (foldl (\<lambda>c r. waveformTick r c) c (take n rnds))) \<le> 50"
    if "0 < n \<and> n \<le> length rnds" for n
  proof -
    have "map (\<lambda>r. r * 100 + 10) (take n rnds) \<noteq> []" using that by auto
    from pushSamples_window[OF this] show ?thesis
      by (simp add: waveformTicks_waveData length_sliceLast)
  qed
  have 4: "waveData (waveformTick r c) = tl (waveData c) @ [r * 100 + 10]"
    if "length (waveData c) = 50"
    using that by (cases "waveData c") (simp_all add: waveformTick_def pushSample_def sliceLast_def)
  have 5: "waveData (waveformTick r c) = waveData c @ [r * 100 + 10]"
    if "length (waveData c) < 50"
    using that by (simp add: waveformTick_def pushSample_def sliceLast_def)
  have 6: "case waveform s of None \<Rightarrow> True | Some w \<Rightarrow> length (waveData w) \<le> 50"
    if "run es (startup rnd) = Some (s, out)"
    using reachable_wellFormed[OF that]
    by (simp add: wellFormed_def waveformOk_def split: option.splits)
  from 1 2 3 4 5 6 show ?thesis by blast
qed

theorem waveform_sliding_window_witness:
  "length (map real [0..<52]) = 50 + 2 \<and> (0::nat) < 2 \<and>
   waveData (foldl (\<lambda>c r. waveformTick r c) mountWaveform (map real [0..<52])) =
     map (\<lambda>n. real n * 100 + 10) [2..<52] \<and>
   length (waveData (foldl (\<lambda>c r. waveformTick r c) mountWaveform (map real [0..<52]))) = 50"
proof -
  have l: "length (map real [0..<52]) = 50 + 2" by simp
  have k: "(0::nat) < 2" by simp
  have d: "drop 2 (map (\<lambda>r. r * 100 + 10) (map real [0..<52])) =
     map (\<lambda>n. real n * 100 + 10) [2..<52]"
    by code_simp
  from waveform_sliding_window[OF l k, of mountWaveform] l k d show ?thesis by simp
qed

subsection \<open>Recording and playback together\<close>

lemma settle_recording:
  "isRecording (fst (settle w ok a)) \<Longrightarrow> isRecording a \<or> w = AwaitStartRecorder"
  by (cases w) (auto split: if_splits)

lemma settle_playing_start:
  "isPlaying (fst (settle w ok a)) \<Longrightarrow> isPlaying a \<or> isStartPlayer w"
  by (cases w) (auto split: if_splits)

lemma tick_app:
  "app (fst (step (PositionInterval i) s)) = app s \<and>
   (w \<in> set (pending (fst (step (PositionInterval i) s))) \<longrightarrow>
      w \<in> set (pending s) \<or> w = AwaitStopPlayer)"
  by (auto simp: call_simps Let_def case_prod_beta)

lemma recorderBusy_step:
  assumes "enabled s e" and "recorderBusy (fst (step e s))"
  shows "recorderBusy s \<or> (\<exists>ap. e = StartRecordingPress ap)"
proof (cases e)
  case (Settled k ok)
  with assms(1) have k: "pending s ! k \<in> set (pending s)" by simp
  from assms(2) Settled show ?thesis
    using settle_recording[of "pending s ! k" ok "app s"] k
    by (auto simp: recorderBusy_def app_deliver pending_deliver
        dest: in_set_takeD in_set_dropD)
next
  case (PositionInterval i)
  with assms(2) show ?thesis
    using tick_app[of i s AwaitStartRecorder] by (auto simp: recorderBusy_def simp del: step.simps)
next
  case (ReadDirSettled result)
  with assms(2) show ?thesis
    by (auto simp: recorderBusy_def app_deliver pending_deliver readDirSettled_def Let_def
        split: option.splits)
next
  case (PlayBackInfo isFinished)
  with assms(2) show ?thesis
    by (auto simp: recorderBusy_def app_deliver pending_deliver playBackListener_funpow
        split: if_splits)
next
  case (WaveformInterval i rnd)
  with assms(2) show ?thesis by (simp add: recorderBusy_def)
next
  case (StartRecordingPress ap)
  then show ?thesis by simp
next
  case PauseRecordingPress
  with assms(2) show ?thesis by (auto simp: recorderBusy_def call_simps)
next
  case ResumeRecordingPress
  with assms(2) show ?thesis by (auto simp: recorderBusy_def call_simps)
next
  case StopRecordingPress
  with assms(2) show ?thesis by (auto simp: recorderBusy_def call_simps)
next
  case (PlayPress item)
  with assms(2) show ?thesis
    by (auto simp: recorderBusy_def call_simps app_deliver pending_deliver)
next
  case ModalClosePress
  with assms(2) show ?thesis
    by (auto simp: recorderBusy_def call_simps app_deliver pending_deliver split: if_splits)
next
  case ModalControlPress
  with assms(2) show ?thesis
    by (auto simp: recorderBusy_def call_simps split: if_splits option.splits)
next
  case ModalStopPress
  with assms(2) show ?thesis by (auto simp: recorderBusy_def call_simps)
qed

lemma playerBusy_step:
  assumes "enabled s e" and "playerBusy (fst (step e s))"
  shows "playerBusy s \<or> (\<exists>item. e = PlayPress item) \<or>
         (e = ModalControlPress \<and> \<not> isPlaying (app s))"
proof (cases e)
  case (Settled k ok)
  with assms(1) have k: "pending s ! k \<in> set (pending s)" by simp
  from assms(2) Settled show ?thesis
    using settle_playing_start[of "pending s ! k" ok "app s"] k
    by (auto simp: playerBusy_def app_deliver pending_deliver list_ex_iff
        dest: in_set_takeD in_set_dropD)
next
  case (PositionInterval i)
  with assms(2) show ?thesis
    using tick_app[of i s]
    by (fastforce simp: playerBusy_def list_ex_iff simp del: step.simps)
next
  case (ReadDirSettled result)
  with assms(2) show ?thesis
    by (auto simp: playerBusy_def app_deliver pending_deliver readDirSettled_def Let_def
        split: option.splits)
next
  case (PlayBackInfo isFinished)
  with assms(2) show ?thesis
    by (auto simp: playerBusy_def app_deliver pending_deliver playBackListener_funpow
        split: if_splits)
next
  case (WaveformInterval i rnd)
  with assms(2) show ?thesis by (simp add: playerBusy_def)
next
  case (StartRecordingPress ap)
  with assms(2) show ?thesis
    by (auto simp: playerBusy_def call_simps list_ex_iff split: option.splits if_splits)
next
  case PauseRecordingPress
  with assms(2) show ?thesis by (auto simp: playerBusy_def call_simps list_ex_iff)
next
  case ResumeRecordingPress
  with assms(2) show ?thesis by (auto simp: playerBusy_def call_simps list_ex_iff)
next
  case StopRecordingPress
  with assms(2) show ?thesis by (auto simp: playerBusy_def call_simps list_ex_iff)
next
  case (PlayPress item)
  then show ?thesis by simp
next
  case ModalClosePress
  with assms(2) show ?thesis
    by (auto simp: playerBusy_def call_simps app_deliver pending_deliver list_ex_iff
        split: if_splits)
next
  case ModalControlPress
  with assms(2) show ?thesis
    by (auto simp: playerBusy_def call_simps list_ex_iff split: if_splits option.splits)
next
  case ModalStopPress
  with assms(2) show ?thesis by (auto simp: playerBusy_def call_simps list_ex_iff)
qed

lemma step_exclusive:
  assumes "\<not> (recorderBusy s \<and> playerBusy s)" and "exclusiveRequest s e" and "enabled s e"
  shows "\<not> (recorderBusy (fst (step e s)) \<and> playerBusy (fst (step e s)))"
proof
  assume b: "recorderBusy (fst (step e s)) \<and> playerBusy (fst (step e s))"
  from recorderBusy_step[OF assms(3)] b
  have r: "recorderBusy s \<or> (\<exists>ap. e = StartRecordingPress ap)" by blast
  from playerBusy_step[OF assms(3)] b
  have p: "playerBusy s \<or> (\<exists>item. e = PlayPress item) \<or>
           (e = ModalControlPress \<and> \<not> isPlaying (app s))" by blast
  from r p assms(1,2) show False
    by (auto simp: exclusiveRequest_def)
qed

lemma run_exclusive:
  "run es s = Some (s', out) \<Longrightarrow> exclusiveRequests es s \<Longrightarrow>
   \<not> (recorderBusy s \<and> playerBusy s) \<Longrightarrow> \<not> (recorderBusy s' \<and> playerBusy s')"
proof (induction es arbitrary: s out)
  case Nil
  then show ?case by simp
next
  case (Cons e es)
  from Cons.prems(1) obtain out' where r: "run es (fst (step e s)) = Some (s', out')"
    and en: "enabled s e"
    by (auto split: if_splits option.splits)
  from Cons.prems(2) have ex: "exclusiveRequest s e" "exclusiveRequests es (fst (step e s))"
    by simp_all
  from Cons.IH[OF r ex(2) step_exclusive[OF Cons.prems(3) ex(1) en]] show ?case .
qed

lemma startup_idle: "\<not> recorderBusy (startup rnd) \<and> \<not> playerBusy (startup rnd)"
  by (simp add: startup_def recorderBusy_def playerBusy_def initialApp_def)

text \<open>
  C1, as stated: no reachable state has both the recording flag and the playing flag
  set, a request to start one session while the other is active being rejected or
  serialized. Pressing Start Recording and then Play on a list item (both buttons are
  rendered, the engine accepts both calls) reaches a state with both flags set.
\<close>

theorem both_sessions_counterexample:
  "run [StartRecordingPress (Some ''/docs/new.m4a''), Settled 0 True, PlayPress recA,
        Settled 0 True] exampleStart =
     Some (exampleBoth,
           [Call (StartRecorder ''/docs/new.m4a''), Call (StartPlayer ''/docs/a.m4a''),
            Call AddPlayBackListener]) \<and>
   isRecording (app exampleBoth) \<and> isPlaying (app exampleBoth)"
  by code_simp

text \<open>
  C1, amended: at most one of a recording session and a playback session is active in
  every state reached by a sequence of operations whose requests are exclusive, that is
  in which no session is started while a session of the other kind is active or its
  start call is still in flight. The coordinator itself neither rejects nor serializes:
  \<^verbatim>\<open>startRecording\<close> while playing and \<^verbatim>\<open>handlePlayRecording\<close> while recording call
  the engine and, the engine accepting, leave both flags set.
\<close>

theorem sessions_exclusive_when_requests_are:
  "(run es (startup rnd) = Some (s, out) \<and> exclusiveRequests es (startup rnd) \<longrightarrow>
      \<not> (isRecording (app s) \<and> isPlaying (app s))) \<and>
   (isPlaying a \<and> p \<noteq> [] \<longrightarrow>
      startRecording (Some p) True a =
        (a\<lparr>isRecording := True, isPaused := False\<rparr>, [Call (StartRecorder p)]) \<and>
      isRecording (fst (startRecording (Some p) True a)) \<and>
      isPlaying (fst (startRecording (Some p) True a))) \<and>
   (isRecording a \<longrightarrow>
      snd (handlePlayRecording item True a) =
        [Call (StartPlayer (path item)), Call AddPlayBackListener] \<and>
      isRecording (fst (handlePlayRecording item True a)) \<and>
      isPlaying (fst (handlePlayRecording item True a)))"
proof -
  have "\<not> (isRecording (app s) \<and> isPlaying (app s))"
    if "run es (startup rnd) = Some (s, out)" "exclusiveRequests es (startup rnd)"
    using run_exclusive[OF that] startup_idle[of rnd]
    by (auto simp: recorderBusy_def playerBusy_def)
  then show ?thesis
    by (simp add: startRecording_def handlePlayRecording_def startPlayback_def)
qed

theorem sessions_exclusive_when_requests_are_witness:
  "run [ReadDirSettled (Some exampleDir), StartRecordingPress (Some ''/docs/new.m4a''),
        Settled 0 True, StopRecordingPress, Settled 0 True,
        ReadDirSettled (Some exampleDir), PlayPress recA, Settled 0 True]
     (startup (\<lambda>i. 0)) =
     Some (examplePlaying,
           [Call (StartRecorder ''/docs/new.m4a''), Call StopRecorder, ReadDir,
            Call (StartPlayer ''/docs/a.m4a''), Call AddPlayBackListener]) \<and>
   exclusiveRequests
     [ReadDirSettled (Some exampleDir), StartRecordingPress (Some ''/docs/new.m4a''),
      Settled 0 True, StopRecordingPress, Settled 0 True,
      ReadDirSettled (Some exampleDir), PlayPress recA, Settled 0 True]
     (startup (\<lambda>i. 0)) \<and>
   isPlaying (app examplePlaying) \<and> \<not> isRecording (app examplePlaying) \<and>
   isRecording (fst (startRecording (Some ''/docs/new.m4a'') True (app examplePlaying))) \<and>
   isPlaying (fst (startRecording (Some ''/docs/new.m4a'') True (app examplePlaying)))"
proof -
  have r: "run [ReadDirSettled (Some exampleDir), StartRecordingPress (Some ''/docs/new.m4a''),
        Settled 0 True, StopRecordingPress, Settled 0 True,
        ReadDirSettled (Some exampleDir), PlayPress recA, Settled 0 True]
     (startup (\<lambda>i. 0)) =
     Some (examplePlaying,
           [Call (StartRecorder ''/docs/new.m4a''), Call StopRecorder, ReadDir,
            Call (StartPlayer ''/docs/a.m4a''), Call AddPlayBackListener])"
    by code_simp
  have x: "exclusiveRequests
     [ReadDirSettled (Some exampleDir), StartRecordingPress (Some ''/docs/new.m4a''),
      Settled 0 True, StopRecordingPress, Settled 0 True,
      ReadDirSettled (Some exampleDir), PlayPress recA, Settled 0 True]
     (startup (\<lambda>i. 0))"
    by code_simp
  have pl: "isPlaying (app examplePlaying)" by code_simp
  have p: "''/docs/new.m4a'' \<noteq> []" by simp
  from sessions_exclusive_when_requests_are[where a = "app examplePlaying"
      and p = "''/docs/new.m4a''" and item = recA and s = examplePlaying
      and rnd = "\<lambda>i. 0"
      and es = "[ReadDirSettled (Some exampleDir),
        StartRecordingPress (Some ''/docs/new.m4a''), Settled 0 True, StopRecordingPress,
        Settled 0 True, ReadDirSettled (Some exampleDir), PlayPress recA, Settled 0 True]"
      and out = "[Call (StartRecorder ''/docs/new.m4a''), Call StopRecorder, ReadDir,
            Call (StartPlayer ''/docs/a.m4a''), Call AddPlayBackListener]"]
    r x pl p
  show ?thesis by blast
qed

subsection \<open>Guards of the handlers\<close>

lemma settle_calls:
  "Call c \<in> set (snd (settle w ok a)) \<Longrightarrow> c = AddPlayBackListener"
  by (cases w) (auto split: if_splits)

lemma step_calls:
  assumes "wellFormed s" and "enabled s e" and "Call c \<in> set (snd (step e s))"
  shows "(case c of
            StartRecorder p \<Rightarrow> \<not> isRecording (app s)
          | PauseRecorder \<Rightarrow> isRecording (app s) \<and> \<not> isPaused (app s)
          | ResumeRecorder \<Rightarrow> isRecording (app s) \<and> isPaused (app s)
          | StopRecorder \<Rightarrow> isRecording (app s)
          | StartPlayer p \<Rightarrow> True
          | PausePlayer \<Rightarrow> isPlaying (app s) \<and> \<not> isPaused (app s)
          | ResumePlayer \<Rightarrow> isPlaying (app s) \<and> isPaused (app s)
          | StopPlayer \<Rightarrow> isPlaying (app s)
          | AddPlayBackListener \<Rightarrow> True)"
proof (cases e)
  case (PositionInterval i)
  with assms(2) have "i \<in> set (live (modal s))" by simp
  from tick_visible[OF assms(1) this] assms(3) PositionInterval show ?thesis
    by (auto simp: tick_step[OF assms(1)] call_simps simp del: step.simps split: if_splits)
next
  case (Settled k ok)
  with assms(3) show ?thesis
    by (auto simp: snd_deliver dest: settle_calls)
next
  case (ReadDirSettled result)
  with assms(3) show ?thesis
    by (auto simp: snd_deliver readDirSettled_def Let_def split: option.splits)
next
  case (StartRecordingPress ap)
  with assms(2,3) show ?thesis by (auto simp: call_simps split: option.splits if_splits)
next
  case PauseRecordingPress
  with assms(2,3) show ?thesis by (auto simp: call_simps)
next
  case ResumeRecordingPress
  with assms(2,3) show ?thesis by (auto simp: call_simps)
next
  case StopRecordingPress
  with assms(2,3) show ?thesis by (auto simp: call_simps)
next
  case (PlayPress item)
  with assms(2,3) show ?thesis by (auto simp: call_simps)
next
  case ModalClosePress
  with assms(2,3) show ?thesis by (auto simp: call_simps snd_deliver split: if_splits)
next
  case ModalControlPress
  with assms(2,3) show ?thesis by (auto simp: call_simps split: if_splits option.splits)
next
  case ModalStopPress
  with assms(2,3) show ?thesis by (auto simp: call_simps)
next
  case (WaveformInterval i rnd)
  with assms(3) show ?thesis by simp
next
  case (PlayBackInfo isFinished)
  with assms(3) show ?thesis by (simp add: snd_deliver)
qed

text \<open>
  C5, as stated: invoking a controller operation from a state that does not permit it
  is a no-op guarded by the state tag. Starting the player is not guarded: from the
  recording state the list's Play button calls the engine and the application ends up
  recording and playing. The guard of the pause is on the shared paused flag: start
  recording, pause it, play and stop a recording (which clears the flag), and the Pause
  Recording button issues \<^verbatim>\<open>pauseRecorder\<close> again, for a recorder that is already
  paused and was never resumed.
\<close>

theorem operation_not_guarded_counterexample:
  "run [StartRecordingPress (Some ''/docs/new.m4a''), Settled 0 True] exampleStart =
     Some (exampleRecording, [Call (StartRecorder ''/docs/new.m4a'')]) \<and>
   isRecording (app exampleRecording) \<and> \<not> isPlaying (app exampleRecording) \<and>
   run [PlayPress recA, Settled 0 True] exampleRecording =
     Some (exampleBoth, [Call (StartPlayer ''/docs/a.m4a''), Call AddPlayBackListener]) \<and>
   isRecording (app exampleBoth) \<and> isPlaying (app exampleBoth) \<and>
   map_option snd
     (run [StartRecordingPress (Some ''/docs/new.m4a''), Settled 0 True,
           PauseRecordingPress, Settled 0 True, PlayPress recA, Settled 0 True,
           ModalStopPress, Settled 0 True, PauseRecordingPress] exampleStart) =
     Some [Call (StartRecorder ''/docs/new.m4a''), Call PauseRecorder,
           Call (StartPlayer ''/docs/a.m4a''), Call AddPlayBackListener, Call StopPlayer,
           Call PauseRecorder]"
  by code_simp

text \<open>
  C5, amended: the handlers carry no state check of their own (\<^verbatim>\<open>pauseRecording\<close>
  calls the engine's \<^verbatim>\<open>pauseRecorder\<close> whenever it runs). The guard is in the view
  and in the dispatch on the flags at the press: in every reachable state an event
  issues \<^verbatim>\<open>startRecorder\<close> only while \<open>isRecording\<close> is clear, \<^verbatim>\<open>pauseRecorder\<close> only
  while \<open>isRecording\<close> is set and \<open>isPaused\<close> clear, \<^verbatim>\<open>resumeRecorder\<close> only while both
  are set, \<^verbatim>\<open>stopRecorder\<close> only while \<open>isRecording\<close> is set, and likewise
  \<^verbatim>\<open>pausePlayer\<close>, \<^verbatim>\<open>resumePlayer\<close> and \<^verbatim>\<open>stopPlayer\<close> on \<open>isPlaying\<close>. In
  particular a pause cannot be requested while the state is idle: no event issues
  \<^verbatim>\<open>pauseRecorder\<close> there and the Pause Recording button cannot be pressed. The guard
  reads these flags only: \<^verbatim>\<open>startPlayer\<close> is issued by the list's Play button from
  every state, and \<open>isPaused\<close> is shared by the two sessions.
\<close>

theorem calls_guarded_by_flags:
  assumes "run es (startup rnd) = Some (s, out)" and "enabled s e"
  shows "(Call (StartRecorder p) \<in> set (snd (step e s)) \<longrightarrow> \<not> isRecording (app s)) \<and>
         (Call PauseRecorder \<in> set (snd (step e s)) \<longrightarrow>
            isRecording (app s) \<and> \<not> isPaused (app s)) \<and>
         (Call ResumeRecorder \<in> set (snd (step e s)) \<longrightarrow>
            isRecording (app s) \<and> isPaused (app s)) \<and>
         (Call StopRecorder \<in> set (snd (step e s)) \<longrightarrow> isRecording (app s)) \<and>
         (Call PausePlayer \<in> set (snd (step e s)) \<longrightarrow>
            isPlaying (app s) \<and> \<not> isPaused (app s)) \<and>
         (Call ResumePlayer \<in> set (snd (step e s)) \<longrightarrow>
            isPlaying (app s) \<and> isPaused (app s)) \<and>
         (Call StopPlayer \<in> set (snd (step e s)) \<longrightarrow> isPlaying (app s)) \<and>
         (\<not> isRecording (app s) \<longrightarrow>
            Call PauseRecorder \<notin> set (snd (step e s)) \<and>
            run (PauseRecordingPress # es') s = None) \<and>
         snd (step (PlayPress item) s) = [Call (StartPlayer (path item))] \<and>
         snd (pauseRecording ok a) =
           Call PauseRecorder # (if ok then [] else [ConsoleError ''pauseRecording failed'']) \<and>
         fst (pauseRecording True a) = a\<lparr>isPaused := True\<rparr>"
proof -
  have wf: "wellFormed s" using assms(1) by (rule reachable_wellFormed)
  note g = step_calls[OF wf assms(2)]
  have 1: "Call (StartRecorder p) \<in> set (snd (step e s)) \<longrightarrow> \<not> isRecording (app s)"
    using g[of "StartRecorder p"] by auto
  have 2: "Call PauseRecorder \<in> set (snd (step e s)) \<longrightarrow>
            isRecording (app s) \<and> \<not> isPaused (app s)"
    using g[of PauseRecorder] by auto
  have 3: "Call ResumeRecorder \<in> set (snd (step e s)) \<longrightarrow>
            isRecording (app s) \<and> isPaused (app s)"
    using g[of ResumeRecorder] by auto
  have 4: "Call StopRecorder \<in> set (snd (step e s)) \<longrightarrow> isRecording (app s)"
    using g[of StopRecorder] by auto
  have 5: "Call PausePlayer \<in> set (snd (step e s)) \<longrightarrow>
            isPlaying (app s) \<and> \<not> isPaused (app s)"
    using g[of PausePlayer] by auto
  have 6: "Call ResumePlayer \<in> set (snd (step e s)) \<longrightarrow>
            isPlaying (app s) \<and> isPaused (app s)"
    using g[of ResumePlayer] by auto
  have 7: "Call StopPlayer \<in> set (snd (step e s)) \<longrightarrow> isPlaying (app s)"
    using g[of StopPlayer] by auto
  have 8: "run (PauseRecordingPress # es') s = None" if "\<not> isRecording (app s)"
    using that by simp
  have 9: "snd (step (PlayPress item) s) = [Call (StartPlayer (path item))]"
    by (simp add: call_simps)
  have 10: "snd (pauseRecording ok a) =
           Call PauseRecorder # (if ok then [] else [ConsoleError ''pauseRecording failed'']) \<and>
         fst (pauseRecording True a) = a\<lparr>isPaused := True\<rparr>"
    by (simp add: pauseRecording_def)
  from 1 2 3 4 5 6 7 8 9 10 show ?thesis by blast
qed

theorem calls_guarded_by_flags_witness:
  "run [ReadDirSettled (Some exampleDir)] (startup (\<lambda>i. 0)) = Some (exampleStart, []) \<and>
   enabled exampleStart (PlayPress recA) \<and>
   \<not> isRecording (app exampleStart) \<and>
   Call PauseRecorder \<notin> set (snd (step (PlayPress recA) exampleStart)) \<and>
   run [PauseRecordingPress] exampleStart = None \<and>
   run [ReadDirSettled (Some exampleDir), StartRecordingPress (Some ''/docs/new.m4a''),
        Settled 0 True] (startup (\<lambda>i. 0)) =
     Some (exampleRecording, [Call (StartRecorder ''/docs/new.m4a'')]) \<and>
   enabled exampleRecording PauseRecordingPress \<and>
   Call PauseRecorder \<in> set (snd (step PauseRecordingPress exampleRecording)) \<and>
   isRecording (app exampleRecording) \<and> \<not> isPaused (app exampleRecording)"
proof -
  have r0: "run [ReadDirSettled (Some exampleDir)] (startup (\<lambda>i. 0)) = Some (exampleStart, [])"
    by code_simp
  have e0: "enabled exampleStart (PlayPress recA)" by code_simp
  have i0: "\<not> isRecording (app exampleStart)" by code_simp
  have r1: "run [ReadDirSettled (Some exampleDir), StartRecordingPress (Some ''/docs/new.m4a''),
        Settled 0 True] (startup (\<lambda>i. 0)) =
     Some (exampleRecording, [Call (StartRecorder ''/docs/new.m4a'')])"
    by code_simp
  have e1: "enabled exampleRecording PauseRecordingPress" by code_simp
  have c1: "Call PauseRecorder \<in> set (snd (step PauseRecordingPress exampleRecording))"
    by (simp add: call_simps)
  from calls_guarded_by_flags[OF r0 e0, where es' = "[]"] i0
  have a: "Call PauseRecorder \<notin> set (snd (step (PlayPress recA) exampleStart)) \<and>
           run [PauseRecordingPress] exampleStart = None"
    by blast
  from calls_guarded_by_flags[OF r1 e1] c1
  have b: "isRecording (app exampleRecording) \<and> \<not> isPaused (app exampleRecording)"
    by blast
  from r0 e0 i0 r1 e1 c1 a b show ?thesis by blast
qed

subsection \<open>Pausing and the interval timers\<close>

lemma recording_clock:
  assumes "wellFormed s" and "isRecording (app s)"
  shows "\<exists>c. waveform s = Some c \<and>
           (if isPaused (app s) then live c = [] else \<exists>i. live c = [i] \<and> animationRef c = Some i)"
proof -
  from assms obtain c where c: "waveform s = Some c" "owned c" "(live c = []) = isPaused (app s)"
    by (cases "waveform s") (auto simp: wellFormed_def waveformOk_def)
  then show ?thesis
    by (cases "animationRef c") (auto simp: owned_def)
qed

lemma playback_clock:
  assumes "wellFormed s"
  shows "if isPlaying (app s) \<and> \<not> isPaused (app s) \<and> showPlaybackModal (app s) then
           \<exists>i. live (modal s) = [i] \<and> animationRef (modal s) = Some i
         else live (modal s) = []"
proof -
  from assms have m: "owned (modal s)"
    "(live (modal s) = []) =
       (\<not> (isPlaying (app s) \<and> \<not> isPaused (app s) \<and> showPlaybackModal (app s)))"
    by (simp_all add: wellFormed_def modalOk_def)
  then show ?thesis
    by (cases "animationRef (modal s)") (auto simp: owned_def)
qed

lemma no_tick_while_paused:
  assumes "wellFormed s" and "isPaused (app s)"
  shows "\<not> enabled s (WaveformInterval i r) \<and> \<not> enabled s (PositionInterval j)"
proof -
  have "live (modal s) = []" using playback_clock[OF assms(1)] assms(2) by simp
  moreover have "case waveform s of None \<Rightarrow> True | Some c \<Rightarrow> live c = []"
    using assms by (auto simp: wellFormed_def waveformOk_def split: option.splits)
  ultimately show ?thesis by (auto split: option.splits)
qed

lemma settled_app:
  "app (fst (step (Settled k ok) s)) = fst (settle (pending s ! k) ok (app s))"
  by (simp add: app_deliver)

text \<open>
  C8, as stated: pausing toggles the paused flag without cancelling the clock; the tick
  keeps firing while the session is paused and is only suppressed by a check of the
  flag. In the code the interval that was live while recording (or playing) is cleared
  once the pause has set the flag, and no interval of the component can fire then.
\<close>

theorem pause_cancels_clock_counterexample:
  "run [StartRecordingPress (Some ''/docs/new.m4a''), Settled 0 True] exampleStart =
     Some (exampleRecording, [Call (StartRecorder ''/docs/new.m4a'')]) \<and>
   waveform exampleRecording =
     Some \<lparr>animationRef = Some 1, live = [1], nextId = 2, waveData = []\<rparr> \<and>
   run [StartRecordingPress (Some ''/docs/new.m4a''), Settled 0 True, PauseRecordingPress,
        Settled 0 True] exampleStart =
     Some (examplePausedRecording,
           [Call (StartRecorder ''/docs/new.m4a''), Call PauseRecorder]) \<and>
   isRecording (app examplePausedRecording) \<and> isPaused (app examplePausedRecording) \<and>
   waveform examplePausedRecording =
     Some \<lparr>animationRef = Some 1, live = [], nextId = 2, waveData = []\<rparr> \<and>
   \<not> enabled examplePausedRecording (WaveformInterval 1 0) \<and>
   live (modal examplePlaying) = [1] \<and>
   run [PlayPress recA, Settled 0 True, ModalControlPress, Settled 0 True] exampleStart =
     Some (examplePausedPlaying,
           [Call (StartPlayer ''/docs/a.m4a''), Call AddPlayBackListener, Call PausePlayer]) \<and>
   isPlaying (app examplePausedPlaying) \<and> isPaused (app examplePausedPlaying) \<and>
   live (modal examplePausedPlaying) = [] \<and>
   \<not> enabled examplePausedPlaying (PositionInterval 1)"
  by code_simp

text \<open>
  C8, amended: pausing an active recording or playback session sets the shared
  \<open>isPaused\<close> flag once the engine has accepted the call, and the change of the flag
  cancels the clock: \<open>isPaused\<close> is a dependency of the component's effect, whose cleanup
  and \<^verbatim>\<open>else\<close> branch call \<^verbatim>\<open>clearInterval\<close>. In every reachable state the waveform
  has exactly one live interval while recording with the flag clear, the modal has
  exactly one while playing with the flag clear and the modal visible, and neither has
  one while the flag is set: no tick fires while \<open>isPaused\<close> is set, and the callback
  never reads the flag. An accepted resume of either session clears the flag and
  schedules an interval again. The flag is shared by the two sessions: the start of
  playback clears it too, which restarts the waveform's interval of a recording that
  was paused and not resumed.
\<close>

theorem pause_cancels_clock:
  assumes "run es (startup rnd) = Some (s, out)"
  shows "(isRecording (app s) \<longrightarrow>
            (\<exists>c. waveform s = Some c \<and>
                 (if isPaused (app s) then live c = [] else \<exists>i. live c = [i]))) \<and>
         (if isPlaying (app s) \<and> \<not> isPaused (app s) \<and> showPlaybackModal (app s) then
            \<exists>i. live (modal s) = [i]
          else live (modal s) = []) \<and>
         (isPaused (app s) \<longrightarrow>
            \<not> enabled s (WaveformInterval i r) \<and> \<not> enabled s (PositionInterval j)) \<and>
         step PauseRecordingPress s =
           (s\<lparr>pending := pending s @ [AwaitPauseRecorder]\<rparr>, [Call PauseRecorder]) \<and>
         (k < length (pending s) \<and>
          (pending s ! k = AwaitPauseRecorder \<or> pending s ! k = AwaitPausePlayer) \<longrightarrow>
            isPaused (app (fst (step (Settled k True) s))) \<and>
            live (modal (fst (step (Settled k True) s))) = [] \<and>
            (case waveform (fst (step (Settled k True) s)) of
               None \<Rightarrow> True
             | Some c \<Rightarrow> live c = [])) \<and>
         (k < length (pending s) \<and>
          (pending s ! k = AwaitResumeRecorder \<or> pending s ! k = AwaitResumePlayer) \<longrightarrow>
            \<not> isPaused (app (fst (step (Settled k True) s))) \<and>
            (isRecording (app s) \<longrightarrow>
               (\<exists>c i. waveform (fst (step (Settled k True) s)) = Some c \<and> live c = [i])) \<and>
            (isPlaying (app s) \<and> showPlaybackModal (app s) \<longrightarrow>
               (\<exists>i. live (modal (fst (step (Settled k True) s))) = [i]))) \<and>
         (k < length (pending s) \<and> pending s ! k = AwaitStartPlayer q \<and>
          isRecording (app s) \<longrightarrow>
            \<not> isPaused (app (fst (step (Settled k True) s))) \<and>
            (\<exists>c i. waveform (fst (step (Settled k True) s)) = Some c \<and> live c = [i]))"
proof -
  have wf: "wellFormed s" using assms by (rule reachable_wellFormed)
  have 1: "\<exists>c. waveform s = Some c \<and>
                 (if isPaused (app s) then live c = [] else \<exists>i. live c = [i])"
    if "isRecording (app s)"
    using recording_clock[OF wf that] by (cases "isPaused (app s)") auto
  have 2: "if isPlaying (app s) \<and> \<not> isPaused (app s) \<and> showPlaybackModal (app s) then
            \<exists>i. live (modal s) = [i]
          else live (modal s) = []"
    using playback_clock[OF wf] by auto
  have 3: "\<not> enabled s (WaveformInterval i r) \<and> \<not> enabled s (PositionInterval j)"
    if "isPaused (app s)"
    using no_tick_while_paused[OF wf that] .
  have 4: "step PauseRecordingPress s =
           (s\<lparr>pending := pending s @ [AwaitPauseRecorder]\<rparr>, [Call PauseRecorder])"
    by (simp add: call_def)
  let ?s' = "fst (step (Settled k True) s)"
  have wf': "wellFormed ?s'" if "k < length (pending s)"
    using that by (intro step_wellFormed[OF wf]) simp
  have 5: "isPaused (app ?s') \<and> live (modal ?s') = [] \<and>
            (case waveform ?s' of None \<Rightarrow> True | Some c \<Rightarrow> live c = [])"
    if h: "k < length (pending s) \<and>
          (pending s ! k = AwaitPauseRecorder \<or> pending s ! k = AwaitPausePlayer)"
  proof -
    from h have p: "isPaused (app ?s')" by (auto simp: settled_app simp del: step.simps)
    from h have w: "wellFormed ?s'" using wf' by blast
    from playback_clock[OF w] p have "live (modal ?s') = []" by simp
    moreover from w p have "case waveform ?s' of None \<Rightarrow> True | Some c \<Rightarrow> live c = []"
      by (auto simp: wellFormed_def waveformOk_def split: option.splits)
    ultimately show ?thesis using p by blast
  qed
  have 6: "\<not> isPaused (app ?s') \<and>
            (isRecording (app s) \<longrightarrow> (\<exists>c i. waveform ?s' = Some c \<and> live c = [i])) \<and>
            (isPlaying (app s) \<and> showPlaybackModal (app s) \<longrightarrow>
               (\<exists>i. live (modal ?s') = [i]))"
    if h: "k < length (pending s) \<and>
          (pending s ! k = AwaitResumeRecorder \<or> pending s ! k = AwaitResumePlayer)"
  proof -
    from h have a: "app ?s' = (app s)\<lparr>isPaused := False\<rparr>" by (auto simp: settled_app simp del: step.simps)
    from h have w: "wellFormed ?s'" using wf' by blast
    have "\<exists>c i. waveform ?s' = Some c \<and> live c = [i]" if "isRecording (app s)"
      using recording_clock[OF w] that a by auto
    moreover have "\<exists>i. live (modal ?s') = [i]"
      if "isPlaying (app s) \<and> showPlaybackModal (app s)"
      using playback_clock[OF w] that a by auto
    ultimately show ?thesis using a by simp
  qed
  have 7: "\<not> isPaused (app ?s') \<and> (\<exists>c i. waveform ?s' = Some c \<and> live c = [i])"
    if h: "k < length (pending s) \<and> pending s ! k = AwaitStartPlayer q \<and> isRecording (app s)"
  proof -
    from h have a: "app ?s' = (app s)\<lparr>isPlaying := True, isPaused := False\<rparr>"
      by (auto simp: settled_app simp del: step.simps)
    from h have w: "wellFormed ?s'" using wf' by blast
    from recording_clock[OF w] h a show ?thesis by auto
  qed
  from 1 2 3 4 5 6 7 show ?thesis by blast
qed

theorem pause_cancels_clock_witness:
  "run [ReadDirSettled (Some exampleDir), StartRecordingPress (Some ''/docs/new.m4a''),
        Settled 0 True, PauseRecordingPress] (startup (\<lambda>i. 0)) =
     Some (fst (step PauseRecordingPress exampleRecording),
           [Call (StartRecorder ''/docs/new.m4a''), Call PauseRecorder]) \<and>
   isRecording (app (fst (step PauseRecordingPress exampleRecording))) \<and>
   \<not> isPaused (app (fst (step PauseRecordingPress exampleRecording))) \<and>
   (\<exists>c i. waveform (fst (step PauseRecordingPress exampleRecording)) = Some c \<and>
          live c = [i]) \<and>
   0 < length (pending (fst (step PauseRecordingPress exampleRecording))) \<and>
   pending (fst (step PauseRecordingPress exampleRecording)) ! 0 = AwaitPauseRecorder \<and>
   isPaused (app (fst (step (Settled 0 True)
                         (fst (step PauseRecordingPress exampleRecording))))) \<and>
   (case waveform (fst (step (Settled 0 True)
                          (fst (step PauseRecordingPress exampleRecording)))) of
      None \<Rightarrow> True
    | Some c \<Rightarrow> live c = []) \<and>
   waveform examplePausedRecording =
     Some \<lparr>animationRef = Some 1, live = [], nextId = 2, waveData = []\<rparr>"
proof -
  let ?s = "fst (step PauseRecordingPress exampleRecording)"
  have r: "run [ReadDirSettled (Some exampleDir), StartRecordingPress (Some ''/docs/new.m4a''),
        Settled 0 True, PauseRecordingPress] (startup (\<lambda>i. 0)) =
     Some (?s, [Call (StartRecorder ''/docs/new.m4a''), Call PauseRecorder])"
    by code_simp
  have a: "isRecording (app ?s)" "\<not> isPaused (app ?s)"
    by code_simp+
  have k: "0 < length (pending ?s)" "pending ?s ! 0 = AwaitPauseRecorder"
    by code_simp+
  have w: "waveform examplePausedRecording =
     Some \<lparr>animationRef = Some 1, live = [], nextId = 2, waveData = []\<rparr>"
    by code_simp
  from pause_cancels_clock[OF r, where k = 0] a k
  have "(\<exists>c i. waveform ?s = Some c \<and> live c = [i]) \<and>
        isPaused (app (fst (step (Settled 0 True) ?s))) \<and>
        (case waveform (fst (step (Settled 0 True) ?s)) of
           None \<Rightarrow> True
         | Some c \<Rightarrow> live c = [])"
    by auto
  with r a k w show ?thesis by blast
qed

subsection \<open>The progress cursor\<close>

lemma clearAnimation_position:
  "clearAnimation (m\<lparr>currentPosition := n\<rparr>) = (clearAnimation m)\<lparr>currentPosition := n\<rparr>"
  by (simp add: clearAnimation_def clearInterval_def split: option.splits)


lemma stop_is_finish:
  assumes "0 < listeners s" and "k < length (pending s)" and "pending s ! k = AwaitStopPlayer"
  shows "step (Settled k True) s =
           ((fst (step (PlayBackInfo True) s))
              \<lparr>pending := take k (pending s) @ drop (Suc k) (pending s)\<rparr>, [])"
  using assms
  by (simp add: deliver_def commit_def playBackListener_funpow)


text \<open>
  C3, as stated: while playing and not paused each tick advances the cursor by exactly
  1, the position stays between 0 and the reference length 100, and when the cursor
  reaches the reference length the controller performs the stop transition of an
  engine-reported finish: clock cancelled, position 0, idle. The last part fails when
  the engine rejects the call: with the cursor on the last bar, the tick resets the
  position and calls \<^verbatim>\<open>stopPlayer\<close>; the call rejected, the application is still
  playing and its interval is still live.
\<close>

theorem progress_cursor_counterexample:
  "run (PlayPress recA # Settled 0 True # replicate 99 (PositionInterval 1)) exampleStart =
     Some (exampleLastBar, [Call (StartPlayer ''/docs/a.m4a''), Call AddPlayBackListener]) \<and>
   isPlaying (app exampleLastBar) \<and> \<not> isPaused (app exampleLastBar) \<and>
   currentPosition (modal exampleLastBar) = 99 \<and>
   enabled exampleLastBar (PositionInterval 1) \<and>
   run [PositionInterval 1, Settled 0 False] exampleLastBar =
     Some (examplePlaying, [Call StopPlayer, ConsoleError ''stopPlayback failed'']) \<and>
   isPlaying (app examplePlaying) \<and> currentPosition (modal examplePlaying) = 0 \<and>
   live (modal examplePlaying) = [1] \<and> enabled examplePlaying (PositionInterval 1)"
  by code_simp

text \<open>
  C3, amended: in every reachable state the position is below the reference length 100
  (so \<open>0 \<le> position \<le> N\<close>). A tick of the progress clock fires only while the
  application is playing, not paused and the modal is visible, and it advances the
  cursor by exactly 1 as long as the new position is below 100. When the new position
  reaches 100 the tick resets the position to 0 and calls \<^verbatim>\<open>stopPlayback\<close>, which
  issues \<^verbatim>\<open>stopPlayer\<close>. When the engine accepts that call, the state becomes the one
  an engine-reported finish produces from the same state: idle, modal closed, position
  0, clock cancelled. When the engine rejects it, the state stays as it is and the
  error is logged.
\<close>

theorem progress_cursor:
  assumes "run es (startup rnd) = Some (s, out)"
  shows "length (playbackWaveData (modal s)) = 100 \<and> currentPosition (modal s) < 100 \<and>
         (enabled s (PositionInterval i) \<longrightarrow>
            isPlaying (app s) \<and> \<not> isPaused (app s) \<and> showPlaybackModal (app s) \<and>
            (currentPosition (modal s) + 1 < 100 \<longrightarrow>
               step (PositionInterval i) s =
                 (s\<lparr>modal := (modal s)\<lparr>currentPosition := currentPosition (modal s) + 1\<rparr>\<rparr>,
                  [])) \<and>
            (currentPosition (modal s) + 1 = 100 \<longrightarrow>
               step (PositionInterval i) s =
                 (s\<lparr>modal := (modal s)\<lparr>currentPosition := 0\<rparr>,
                    pending := pending s @ [AwaitStopPlayer]\<rparr>,
                  [Call StopPlayer]))) \<and>
         (k < length (pending s) \<and> pending s ! k = AwaitStopPlayer \<longrightarrow>
            (isPlaying (app s) \<longrightarrow>
               step (Settled k True) s =
                 ((fst (step (PlayBackInfo True) s))
                    \<lparr>pending := take k (pending s) @ drop (Suc k) (pending s)\<rparr>, [])) \<and>
            \<not> isPlaying (app (fst (step (Settled k True) s))) \<and>
            \<not> isPaused (app (fst (step (Settled k True) s))) \<and>
            \<not> showPlaybackModal (app (fst (step (Settled k True) s))) \<and>
            currentPosition (modal (fst (step (Settled k True) s))) = 0 \<and>
            live (modal (fst (step (Settled k True) s))) = [] \<and>
            step (Settled k False) s =
              (s\<lparr>pending := take k (pending s) @ drop (Suc k) (pending s)\<rparr>,
               [ConsoleError ''stopPlayback failed'']))"
proof -
  have wf: "wellFormed s" using assms by (rule reachable_wellFormed)
  then have 1: "length (playbackWaveData (modal s)) = 100 \<and> currentPosition (modal s) < 100"
    by (simp add: wellFormed_def modalOk_def)
  have 2: "isPlaying (app s) \<and> \<not> isPaused (app s) \<and> showPlaybackModal (app s) \<and>
            (currentPosition (modal s) + 1 < 100 \<longrightarrow>
               step (PositionInterval i) s =
                 (s\<lparr>modal := (modal s)\<lparr>currentPosition := currentPosition (modal s) + 1\<rparr>\<rparr>,
                  [])) \<and>
            (currentPosition (modal s) + 1 = 100 \<longrightarrow>
               step (PositionInterval i) s =
                 (s\<lparr>modal := (modal s)\<lparr>currentPosition := 0\<rparr>,
                    pending := pending s @ [AwaitStopPlayer]\<rparr>,
                  [Call StopPlayer]))"
    if "enabled s (PositionInterval i)"
  proof -
    from that have "i \<in> set (live (modal s))" by simp
    from tick_visible[OF wf this] show ?thesis
      by (simp add: tick_step[OF wf] call_def del: step.simps)
  qed
  let ?s' = "fst (step (Settled k True) s)"
  have 3: "(isPlaying (app s) \<longrightarrow>
               step (Settled k True) s =
                 ((fst (step (PlayBackInfo True) s))
                    \<lparr>pending := take k (pending s) @ drop (Suc k) (pending s)\<rparr>, [])) \<and>
            \<not> isPlaying (app ?s') \<and> \<not> isPaused (app ?s') \<and> \<not> showPlaybackModal (app ?s') \<and>
            currentPosition (modal ?s') = 0 \<and> live (modal ?s') = [] \<and>
            step (Settled k False) s =
              (s\<lparr>pending := take k (pending s) @ drop (Suc k) (pending s)\<rparr>,
               [ConsoleError ''stopPlayback failed''])"
    if h: "k < length (pending s) \<and> pending s ! k = AwaitStopPlayer"
  proof -
    have f: "step (Settled k True) s =
                 ((fst (step (PlayBackInfo True) s))
                    \<lparr>pending := take k (pending s) @ drop (Suc k) (pending s)\<rparr>, [])"
      if "isPlaying (app s)"
    proof -
      from wf that have "0 < listeners s" by (simp add: wellFormed_def)
      from stop_is_finish[OF this] h show ?thesis by blast
    qed
    from h have a: "app ?s' =
        (app s)\<lparr>isPlaying := False, isPaused := False, showPlaybackModal := False\<rparr>"
      by (simp add: settled_app del: step.simps)
    have w: "wellFormed ?s'" using h by (intro step_wellFormed[OF wf]) simp
    then have m: "currentPosition (modal ?s') = 0 \<and> live (modal ?s') = []"
      using a by (simp add: wellFormed_def modalOk_def)
    have r: "step (Settled k False) s =
              (s\<lparr>pending := take k (pending s) @ drop (Suc k) (pending s)\<rparr>,
               [ConsoleError ''stopPlayback failed''])"
      using h by (simp add: rejected_step[OF wf] del: step.simps)
    from f a m r show ?thesis by simp
  qed
  from 1 2 3 show ?thesis by blast
qed

theorem progress_cursor_witness:
  "run [ReadDirSettled (Some exampleDir), PlayPress recA, Settled 0 True] (startup (\<lambda>i. 0)) =
     Some (examplePlaying, [Call (StartPlayer ''/docs/a.m4a''), Call AddPlayBackListener]) \<and>
   enabled examplePlaying (PositionInterval 1) \<and>
   currentPosition (modal examplePlaying) + 1 < 100 \<and>
   currentPosition (modal examplePlaying) = 0 \<and>
   isPlaying (app examplePlaying) \<and> \<not> isPaused (app examplePlaying) \<and>
   step (PositionInterval 1) examplePlaying =
     (examplePlaying\<lparr>modal := (modal examplePlaying)
        \<lparr>currentPosition := currentPosition (modal examplePlaying) + 1\<rparr>\<rparr>, []) \<and>
   run (ReadDirSettled (Some exampleDir) # PlayPress recA # Settled 0 True #
        replicate 99 (PositionInterval 1)) (startup (\<lambda>i. 0)) =
     Some (exampleLastBar, [Call (StartPlayer ''/docs/a.m4a''), Call AddPlayBackListener]) \<and>
   enabled exampleLastBar (PositionInterval 1) \<and>
   currentPosition (modal exampleLastBar) + 1 = 100 \<and>
   step (PositionInterval 1) exampleLastBar =
     (exampleLastBar\<lparr>modal := (modal exampleLastBar)\<lparr>currentPosition := 0\<rparr>,
        pending := pending exampleLastBar @ [AwaitStopPlayer]\<rparr>,
      [Call StopPlayer]) \<and>
   run (ReadDirSettled (Some exampleDir) # PlayPress recA # Settled 0 True #
        replicate 99 (PositionInterval 1) @ [PositionInterval 1]) (startup (\<lambda>i. 0)) =
     Some (fst (step (PositionInterval 1) exampleLastBar),
           [Call (StartPlayer ''/docs/a.m4a''), Call AddPlayBackListener, Call StopPlayer]) \<and>
   0 < length (pending (fst (step (PositionInterval 1) exampleLastBar))) \<and>
   pending (fst (step (PositionInterval 1) exampleLastBar)) ! 0 = AwaitStopPlayer \<and>
   \<not> isPlaying (app (fst (step (Settled 0 True)
                             (fst (step (PositionInterval 1) exampleLastBar))))) \<and>
   live (modal (fst (step (Settled 0 True)
                        (fst (step (PositionInterval 1) exampleLastBar))))) = []"
proof -
  let ?t = "fst (step (PositionInterval 1) exampleLastBar)"
  have r0: "run [ReadDirSettled (Some exampleDir), PlayPress recA, Settled 0 True]
              (startup (\<lambda>i. 0)) =
     Some (examplePlaying, [Call (StartPlayer ''/docs/a.m4a''), Call AddPlayBackListener])"
    by code_simp
  have r1: "run (ReadDirSettled (Some exampleDir) # PlayPress recA # Settled 0 True #
        replicate 99 (PositionInterval 1)) (startup (\<lambda>i. 0)) =
     Some (exampleLastBar, [Call (StartPlayer ''/docs/a.m4a''), Call AddPlayBackListener])"
    by code_simp
  have r2: "run (ReadDirSettled (Some exampleDir) # PlayPress recA # Settled 0 True #
        replicate 99 (PositionInterval 1) @ [PositionInterval 1]) (startup (\<lambda>i. 0)) =
     Some (?t, [Call (StartPlayer ''/docs/a.m4a''), Call AddPlayBackListener, Call StopPlayer])"
    by code_simp
  have e0: "enabled examplePlaying (PositionInterval 1)"
    and p0: "currentPosition (modal examplePlaying) + 1 < 100"
    and q0: "currentPosition (modal examplePlaying) = 0"
    by code_simp+
  have e1: "enabled exampleLastBar (PositionInterval 1)"
    and p1: "currentPosition (modal exampleLastBar) + 1 = 100"
    by code_simp+
  have k2: "0 < length (pending ?t)" "pending ?t ! 0 = AwaitStopPlayer"
    by code_simp+
  from progress_cursor[OF r0, where i = 1] e0 p0
  have t0: "isPlaying (app examplePlaying) \<and> \<not> isPaused (app examplePlaying) \<and>
    step (PositionInterval 1) examplePlaying =
     (examplePlaying\<lparr>modal := (modal examplePlaying)
        \<lparr>currentPosition := currentPosition (modal examplePlaying) + 1\<rparr>\<rparr>, [])"
    by blast
  from progress_cursor[OF r1, where i = 1] e1 p1
  have t1: "step (PositionInterval 1) exampleLastBar =
     (exampleLastBar\<lparr>modal := (modal exampleLastBar)\<lparr>currentPosition := 0\<rparr>,
        pending := pending exampleLastBar @ [AwaitStopPlayer]\<rparr>,
      [Call StopPlayer])"
    by blast
  from progress_cursor[OF r2, where k = 0] k2
  have t2: "\<not> isPlaying (app (fst (step (Settled 0 True) ?t))) \<and>
            live (modal (fst (step (Settled 0 True) ?t))) = []"
    by blast
  from r0 r1 r2 e0 p0 q0 e1 p1 k2 t0 t1 t2 show ?thesis by blast
qed

subsection \<open>The end of playback\<close>











end
